theory Spec2Isabelle
  imports Complex_Main "HOL-Library.Log_Nat"
begin

section \<open>The move selectors of \<^verbatim>\<open>homemade.py\<close>\<close>

text \<open>
  The development embeds the two engine classes \<^verbatim>\<open>TestFish\<close> and \<^verbatim>\<open>WorstFish\<close> of
  \<^verbatim>\<open>homemade.py\<close>. Both pick a move for a chess position; \<^verbatim>\<open>TestFish.search\<close> first draws
  one of four strategies, \<^verbatim>\<open>WorstFish.search\<close> always plays the "worst" strategy (lines 204-238,
  whose text is repeated verbatim as the \<^verbatim>\<open>"Worst"\<close> branch of \<^verbatim>\<open>TestFish.search\<close>, lines 157-191).

  Conventions of the embedding:
  \<^item> an exception is a value \<open>Inl e\<close> of the result type \<open>error + _\<close>;
  \<^item> a Python \<^verbatim>\<open>float\<close> is the rational number it denotes, and every arithmetic operation
    on floats rounds its exact result to the nearest double (see below);
  \<^item> every \<^verbatim>\<open>random.choice\<close> takes its draw as an explicit natural number;
  \<^item> the objects that the code mutates (the board, the two engine processes) are passed in
    and returned as a record \<open>world\<close>;
  \<^item> \<^verbatim>\<open>print\<close>, \<^verbatim>\<open>create_file\<close> and logging have no influence on the result and are left out.
\<close>

subsection \<open>Errors\<close>

text \<open>
  The first four constructors are the exceptions the modelled statements can raise:
  \<^verbatim>\<open>random.choice\<close> on an empty sequence (\<open>IndexError\<close>), the float division of line 209
  (\<open>ZeroDivisionError\<close>), the string concatenation \<^verbatim>\<open>"BMOVE: "+bmove\<close> when \<^verbatim>\<open>bmove\<close> is
  \<^verbatim>\<open>None\<close> (\<open>TypeError\<close>) and any exception of \<^verbatim>\<open>self.stockfish.analyse\<close> (\<open>EngineError\<close>).
  The last three are the error kinds named by the specification; no statement of the source
  raises them, and no definition below produces them.
\<close>

datatype error =
  IndexError | ZeroDivisionError | TypeError | EngineError
  | NoLegalMoves | EvaluationUnavailable | TimeBudgetExhausted

subsection \<open>\<^verbatim>\<open>random.choice\<close>\<close>

text \<open>
  \<^verbatim>\<open>random.choice(seq)\<close> raises \<^verbatim>\<open>IndexError\<close> on an empty sequence and otherwise returns
  \<^verbatim>\<open>seq[k]\<close> for a random index \<^verbatim>\<open>k\<close> below \<^verbatim>\<open>len(seq)\<close>. The draw \<open>r\<close> is the random number;
  the index is its residue.
\<close>

definition choice :: "nat \<Rightarrow> 'a list \<Rightarrow> error + 'a" where
  "choice r seq = (if seq = [] then Inl IndexError else Inr (seq ! (r mod length seq)))"

subsection \<open>Moves, results and the time argument\<close>

text \<open>
  A \<^verbatim>\<open>chess.Move\<close> of type \<open>'m\<close> on which the scoring loop has set the two attributes
  \<^verbatim>\<open>isCapture\<close> and \<^verbatim>\<open>isCheck\<close> (lines 213 and 215).
\<close>

record 'm tagged =
  move :: 'm
  isCapture :: bool
  isCheck :: bool

text \<open>
  \<^verbatim>\<open>PlayResult(move, None)\<close>: the move is a \<^verbatim>\<open>chess.Move\<close>, or the string that
  \<^verbatim>\<open>stockfish.get_best_move()\<close> returned.
\<close>

datatype 'm PlayResult = PlayMove 'm | PlayUci string

text \<open>
  The argument \<^verbatim>\<open>timeLeft\<close>: a \<^verbatim>\<open>chess.engine.Limit\<close> object, or a number of milliseconds
  (the test \<^verbatim>\<open>type(timeLeft) != chess.engine.Limit\<close> of line 206 tells them apart). The number
  is an \<^verbatim>\<open>int\<close> or a finite \<^verbatim>\<open>float\<close>, given by its exact value.
\<close>

datatype timeLeft = Limit | Millis rat

text \<open>The string literals that \<^verbatim>\<open>move_type\<close> ranges over (line 127).\<close>

datatype move_type = Best | Random | Worst | Capture

subsection \<open>External libraries\<close>

text \<open>
  The packages \<^verbatim>\<open>chess\<close> (python-chess) and \<^verbatim>\<open>stockfish\<close> are not part of the repository.
  The methods that the selectors call are parameters, collected in one record:
  \<^item> \<open>legal_moves\<close>, \<open>is_capture\<close>, \<open>is_check\<close>, \<open>push\<close>, \<open>pop\<close>, \<open>fen\<close>: the methods of
    \<^verbatim>\<open>chess.Board\<close>, on positions of type \<open>'p\<close>;
  \<^item> \<open>analyse\<close>: \<^verbatim>\<open>self.stockfish.analyse(board, chess.engine.Limit(time = t))\<close> followed by
    \<^verbatim>\<open>["score"].relative\<close>, on an engine process in state \<open>'s\<close>: the relative score and the
    new state, or \<open>None\<close> when the call raises;
  \<^item> \<open>get_best_move\<close>: \<^verbatim>\<open>stockfish.set_fen_position(f)\<close> followed by
    \<^verbatim>\<open>stockfish.get_best_move()\<close> on the module-level engine in state \<open>'g\<close>; the answer is
    \<open>None\<close> when the engine reports no move.
  Scores (type \<open>'e\<close>) are compared with \<^verbatim>\<open><\<close> and \<^verbatim>\<open>==\<close>; they are taken from a linear order.
\<close>

record ('p, 'm, 'e, 's, 'g) external =
  legal_moves :: "'p \<Rightarrow> 'm list"
  is_capture :: "'p \<Rightarrow> 'm \<Rightarrow> bool"
  is_check :: "'p \<Rightarrow> bool"
  push :: "'p \<Rightarrow> 'm \<Rightarrow> 'p"
  pop :: "'p \<Rightarrow> 'p"
  fen :: "'p \<Rightarrow> string"
  analyse :: "'s \<Rightarrow> 'p \<Rightarrow> rat \<Rightarrow> ('e \<times> 's) option"
  get_best_move :: "'g \<Rightarrow> string \<Rightarrow> string option \<times> 'g"

text \<open>
  The mutable objects a call of \<^verbatim>\<open>search\<close> works on: the argument \<^verbatim>\<open>board\<close>, the process
  \<^verbatim>\<open>self.stockfish\<close> and the module-level \<^verbatim>\<open>stockfish\<close>.
\<close>

record ('p, 's, 'g) world =
  board :: 'p
  engine :: 's
  stockfish :: 'g

subsection \<open>Python floats\<close>

text \<open>
  A Python \<^verbatim>\<open>float\<close> is an IEEE 754 double. A finite double is modelled by the rational number
  it denotes; an arithmetic operation returns the exact result rounded to the nearest double,
  ties going to the even mantissa. \<open>round64\<close> is this rounding: the mantissa has 53 bits, and
  below \<open>2 powi (- 1022)\<close> the spacing of the doubles stays \<open>2 powi (- 1074)\<close> (gradual
  underflow). Overflow to infinity (from \<open>2 ^ 1024\<close> on) is not modelled. Comparisons of floats
  are exact.

  \<open>ilog2 x\<close> is the binary exponent of a positive rational: the integer \<open>e\<close> with
  \<open>2 powi e \<le> x < 2 powi (e + 1)\<close>.
\<close>

definition ilog2 :: "rat \<Rightarrow> int" where
  "ilog2 x =
     (let d = bitlen (fst (quotient_of x)) - bitlen (snd (quotient_of x))
      in if 2 powi d \<le> x then d else d - 1)"

definition round_half_even :: "rat \<Rightarrow> int" where
  "round_half_even y =
     (let f = \<lfloor>y\<rfloor>;
          d = y - of_int f
      in if d < 1 / 2 then f
         else if 1 / 2 < d then f + 1
         else if even f then f else f + 1)"

definition round64 :: "rat \<Rightarrow> rat" where
  "round64 x =
     (if x = 0 then 0
      else (let q = 2 powi (max (ilog2 \<bar>x\<bar>) (- 1022) - 52)
            in of_int (round_half_even (x / q)) * q))"

text \<open>
  The operations \<^verbatim>\<open>-\<close>, \<^verbatim>\<open>*\<close> and \<^verbatim>\<open>/\<close> on floats, and the literals \<^verbatim>\<open>0.1\<close> and \<^verbatim>\<open>0.01\<close>. An
  \<^verbatim>\<open>int\<close> operand (\<^verbatim>\<open>1000\<close>, \<^verbatim>\<open>10\<close>, \<^verbatim>\<open>len(legalMoves)\<close>, a clock given as \<^verbatim>\<open>int\<close>) enters with
  its exact value.
\<close>

definition float_sub :: "rat \<Rightarrow> rat \<Rightarrow> rat" where
  "float_sub a b = round64 (a - b)"

definition float_mul :: "rat \<Rightarrow> rat \<Rightarrow> rat" where
  "float_mul a b = round64 (a * b)"

definition float_div :: "rat \<Rightarrow> rat \<Rightarrow> rat" where
  "float_div a b = round64 (a / b)"

definition float_0_1 :: rat where
  "float_0_1 = round64 (1 / 10)"

definition float_0_01 :: rat where
  "float_0_01 = round64 (1 / 100)"

subsection \<open>\<^verbatim>\<open>evaluate\<close> (lines 121-124 and 198-201)\<close>

definition evaluate ::
  "('p, 'm, 'e, 's, 'g) external \<Rightarrow> 's \<Rightarrow> 'p \<Rightarrow> rat \<Rightarrow> error + 'e \<times> 's" where
  "evaluate ext sf brd timeLimit =
     (case analyse ext sf brd (float_sub timeLimit float_0_01) of
        None \<Rightarrow> Inl EngineError
      | Some result \<Rightarrow> Inr result)"

subsection \<open>The worst strategy (lines 204-238)\<close>

text \<open>
  Lines 205-209: the time given to each evaluation. The division of line 209 is by
  \<^verbatim>\<open>len(legalMoves)\<close>, which raises when there is no legal move.
\<close>

definition search_time :: "timeLeft \<Rightarrow> nat \<Rightarrow> error + rat" where
  "search_time tleft n =
     (case tleft of
        Limit \<Rightarrow> Inr float_0_1
      | Millis ms \<Rightarrow>
          (let secs = float_div ms 1000 in
           if float_mul (of_nat n) float_0_1 > float_div secs 10
           then (if n = 0 then Inl ZeroDivisionError
                 else Inr (float_div (float_div secs 10) (of_nat n)))
           else Inr float_0_1))"

text \<open>Lines 217-221: the update of \<^verbatim>\<open>worstEvaluation\<close> and \<^verbatim>\<open>worstMoves\<close>.\<close>

fun update_worst ::
  "('e::linorder) option \<times> 'm tagged list \<Rightarrow> 'm tagged \<Rightarrow> 'e
     \<Rightarrow> 'e option \<times> 'm tagged list" where
  "update_worst (None, wm) mv ev = (Some ev, [mv])"
| "update_worst (Some w, wm) mv ev =
     (if w < ev then (Some ev, [mv])
      else if w = ev then (Some w, wm @ [mv])
      else (Some w, wm))"

text \<open>
  One entry of the history of the scoring loop: the candidate with the attributes assigned
  to it, the position handed to \<^verbatim>\<open>evaluate\<close>, the time handed to \<^verbatim>\<open>evaluate\<close> and the score
  that came back. The history is an auxiliary variable: the source keeps the attributes on the
  \<^verbatim>\<open>Move\<close> objects of \<^verbatim>\<open>legalMoves\<close> and forgets the rest.
\<close>

record ('p, 'm, 'e) visit =
  candidate :: "'m tagged"
  position :: 'p
  slice :: rat
  evaluation :: 'e

text \<open>The local variables of the scoring loop, with the history.\<close>

record ('p, 'm, 'e) locals =
  worstEvaluation :: "'e option"
  worstMoves :: "'m tagged list"
  visited :: "('p, 'm, 'e) visit list"

text \<open>Lines 210-211: the local variables before the first candidate.\<close>

definition no_locals :: "('p, 'm, 'e) locals" where
  "no_locals = \<lparr>worstEvaluation = None, worstMoves = [], visited = []\<rparr>"

text \<open>
  Lines 213-222, the body of the loop. When \<^verbatim>\<open>evaluate\<close> raises, the exception leaves the
  loop before \<^verbatim>\<open>board.pop()\<close> is reached.
\<close>

definition score_candidate ::
  "('p, 'm, 'e::linorder, 's, 'g) external \<Rightarrow> rat
     \<Rightarrow> ('p, 's, 'g) world \<times> ('p, 'm, 'e) locals \<Rightarrow> 'm
     \<Rightarrow> error + ('p, 's, 'g) world \<times> ('p, 'm, 'e) locals" where
  "score_candidate ext searchTime st m =
     (let w = fst st;
          l = snd st;
          cap = is_capture ext (board w) m;
          pushed = push ext (board w) m;
          mv = \<lparr>move = m, isCapture = cap, isCheck = is_check ext pushed\<rparr>
      in (case evaluate ext (engine w) pushed searchTime of
            Inl e \<Rightarrow> Inl e
          | Inr scored \<Rightarrow>
              (let upd = update_worst (worstEvaluation l, worstMoves l) mv (fst scored);
                   v = \<lparr>candidate = mv, position = pushed, slice = searchTime,
                        evaluation = fst scored\<rparr>
               in Inr (w\<lparr>board := pop ext pushed, engine := snd scored\<rparr>,
                       \<lparr>worstEvaluation = fst upd, worstMoves = snd upd,
                        visited = visited l @ [v]\<rparr>))))"

text \<open>Lines 212-222, the loop over \<^verbatim>\<open>legalMoves\<close>.\<close>

fun scoring_loop ::
  "('p, 'm, 'e::linorder, 's, 'g) external \<Rightarrow> rat \<Rightarrow> 'm list
     \<Rightarrow> ('p, 's, 'g) world \<times> ('p, 'm, 'e) locals
     \<Rightarrow> error + ('p, 's, 'g) world \<times> ('p, 'm, 'e) locals" where
  "scoring_loop ext searchTime [] st = Inr st"
| "scoring_loop ext searchTime (m # ms) st =
     (case score_candidate ext searchTime st m of
        Inl e \<Rightarrow> Inl e
      | Inr st' \<Rightarrow> scoring_loop ext searchTime ms st')"

text \<open>Lines 223-232: the three lists, filled in the order of \<^verbatim>\<open>worstMoves\<close>.\<close>

fun partition_worst ::
  "'m tagged list \<Rightarrow> 'm tagged list \<Rightarrow> 'm tagged list \<Rightarrow> 'm tagged list
     \<Rightarrow> 'm tagged list \<times> 'm tagged list \<times> 'm tagged list" where
  "partition_worst [] worstCaptures worstChecks worstOther =
     (worstCaptures, worstChecks, worstOther)"
| "partition_worst (mv # rest) worstCaptures worstChecks worstOther =
     (if isCapture mv
      then partition_worst rest (worstCaptures @ [mv]) worstChecks worstOther
      else if isCheck mv
      then partition_worst rest worstCaptures (worstChecks @ [mv]) worstOther
      else partition_worst rest worstCaptures worstChecks (worstOther @ [mv]))"

text \<open>Lines 223-238: the choice among the tied moves, with the draw \<open>r\<close>.\<close>

definition tie_break :: "nat \<Rightarrow> 'm tagged list \<Rightarrow> error + 'm tagged" where
  "tie_break r wm =
     (case partition_worst wm [] [] [] of
        (worstCaptures, worstChecks, worstOther) \<Rightarrow>
          if length worstOther \<noteq> 0 then choice r worstOther
          else if length worstChecks \<noteq> 0 then choice r worstChecks
          else choice r worstCaptures)"

text \<open>
  \<^verbatim>\<open>WorstFish.search\<close>. The argument \<open>root_moves\<close> stands for \<^verbatim>\<open>*args\<close>, which the body never
  reads. Besides the \<^verbatim>\<open>PlayResult\<close>, the model returns the objects as the call leaves them and
  the final values of the local variables.
\<close>

definition WorstFish_search ::
  "('p, 'm, 'e::linorder, 's, 'g) external \<Rightarrow> nat \<Rightarrow> ('p, 's, 'g) world \<Rightarrow> timeLeft
     \<Rightarrow> 'm list option
     \<Rightarrow> error + 'm PlayResult \<times> ('p, 's, 'g) world \<times> ('p, 'm, 'e) locals" where
  "WorstFish_search ext r w tleft root_moves =
     (let legalMoves = legal_moves ext (board w)
      in (case search_time tleft (length legalMoves) of
            Inl e \<Rightarrow> Inl e
          | Inr searchTime \<Rightarrow>
              (case scoring_loop ext searchTime legalMoves
                      (w, no_locals) of
                 Inl e \<Rightarrow> Inl e
               | Inr st \<Rightarrow>
                   (case tie_break r (worstMoves (snd st)) of
                      Inl e \<Rightarrow> Inl e
                    | Inr mv \<Rightarrow> Inr (PlayMove (move mv), fst st, snd st)))))"

text \<open>
  The board object as the scoring loop leaves it, whether the loop ends or \<^verbatim>\<open>evaluate\<close> raises.
  The exception of line 216 leaves the loop at once: line 222 is not reached and the board
  keeps the candidate that line 214 pushed. There is no \<^verbatim>\<open>try\<close> around the body.
\<close>

fun board_after_loop ::
  "('p, 'm, 'e::linorder, 's, 'g) external \<Rightarrow> rat \<Rightarrow> 'm list
     \<Rightarrow> ('p, 's, 'g) world \<times> ('p, 'm, 'e) locals \<Rightarrow> 'p" where
  "board_after_loop ext searchTime [] st = board (fst st)"
| "board_after_loop ext searchTime (m # ms) st =
     (case score_candidate ext searchTime st m of
        Inl e \<Rightarrow> push ext (board (fst st)) m
      | Inr st' \<Rightarrow> board_after_loop ext searchTime ms st')"

text \<open>
  The board object after a call of \<^verbatim>\<open>WorstFish.search\<close>, whether it returns or raises: lines
  204-209 and 223-238 do not touch the board.
\<close>

definition WorstFish_board_after ::
  "('p, 'm, 'e::linorder, 's, 'g) external \<Rightarrow> ('p, 's, 'g) world \<Rightarrow> timeLeft \<Rightarrow> 'p" where
  "WorstFish_board_after ext w tleft =
     (let legalMoves = legal_moves ext (board w)
      in (case search_time tleft (length legalMoves) of
            Inl e \<Rightarrow> board w
          | Inr searchTime \<Rightarrow> board_after_loop ext searchTime legalMoves (w, no_locals)))"

subsection \<open>\<^verbatim>\<open>TestFish.search\<close> (lines 126-191)\<close>

text \<open>Lines 132-140 and 152-155: the move of the module-level engine.\<close>

definition best_move ::
  "('p, 'm, 'e, 's, 'g) external \<Rightarrow> ('p, 's, 'g) world
     \<Rightarrow> error + 'm PlayResult \<times> ('p, 's, 'g) world" where
  "best_move ext w =
     (case fst (get_best_move ext (stockfish w) (fen ext (board w))) of
        None \<Rightarrow> Inl TypeError
      | Some bmove \<Rightarrow>
          Inr (PlayUci bmove,
               w\<lparr>stockfish := snd (get_best_move ext (stockfish w) (fen ext (board w)))\<rparr>))"

text \<open>Line 127: the list the strategy is drawn from.\<close>

definition move_types :: "move_type list" where
  "move_types = [Best, Best, Best, Random, Worst, Capture]"

text \<open>
  Lines 129-191: the four branches. The loop of lines 147-149 collects the legal moves for
  which \<^verbatim>\<open>board.is_capture\<close> holds, in order.
\<close>

fun TestFish_strategy ::
  "('p, 'm, 'e::linorder, 's, 'g) external \<Rightarrow> move_type \<Rightarrow> nat \<Rightarrow> ('p, 's, 'g) world
     \<Rightarrow> timeLeft \<Rightarrow> 'm list option \<Rightarrow> error + 'm PlayResult \<times> ('p, 's, 'g) world" where
  "TestFish_strategy ext Best r w tleft root_moves = best_move ext w"
| "TestFish_strategy ext Random r w tleft root_moves =
     (case choice r (legal_moves ext (board w)) of
        Inl e \<Rightarrow> Inl e
      | Inr m \<Rightarrow> Inr (PlayMove m, w))"
| "TestFish_strategy ext Capture r w tleft root_moves =
     (let legalMoves = legal_moves ext (board w);
          captures = filter (is_capture ext (board w)) legalMoves
      in if captures \<noteq> []
         then (case choice r captures of
                 Inl e \<Rightarrow> Inl e
               | Inr m \<Rightarrow> Inr (PlayMove m, w))
         else best_move ext w)"
| "TestFish_strategy ext Worst r w tleft root_moves =
     (case WorstFish_search ext r w tleft root_moves of
        Inl e \<Rightarrow> Inl e
      | Inr res \<Rightarrow> Inr (fst res, fst (snd res)))"

text \<open>\<^verbatim>\<open>TestFish.search\<close>: \<open>r0\<close> is the draw of line 127, \<open>r\<close> the draw of the branch.\<close>

definition TestFish_search ::
  "('p, 'm, 'e::linorder, 's, 'g) external \<Rightarrow> nat \<Rightarrow> nat \<Rightarrow> ('p, 's, 'g) world
     \<Rightarrow> timeLeft \<Rightarrow> 'm list option \<Rightarrow> error + 'm PlayResult \<times> ('p, 's, 'g) world" where
  "TestFish_search ext r0 r w tleft root_moves =
     (case choice r0 move_types of
        Inl e \<Rightarrow> Inl e
      | Inr mt \<Rightarrow> TestFish_strategy ext mt r w tleft root_moves)"

section \<open>Notions of the specification\<close>

text \<open>A quiet move is neither a capture nor a check (glossary of the specification).\<close>

definition quiet :: "'m tagged \<Rightarrow> bool" where
  "quiet mv = (\<not> isCapture mv \<and> \<not> isCheck mv)"

text \<open>
  Section 4.2, step 5 of the specification: the tied moves fall into the buckets quiet moves,
  checks and captures, and the first non-empty bucket in that order is the one to sample from.
  The bucket of checks holds the checks that are not captures.
\<close>

definition first_bucket :: "'m tagged list \<Rightarrow> 'm tagged list" where
  "first_bucket wm =
     (if filter quiet wm \<noteq> [] then filter quiet wm
      else if filter (\<lambda>mv. \<not> isCapture mv \<and> isCheck mv) wm \<noteq> []
      then filter (\<lambda>mv. \<not> isCapture mv \<and> isCheck mv) wm
      else filter isCapture wm)"

text \<open>The legal captures of a position, in the order of enumeration.\<close>

definition legal_captures :: "('p, 'm, 'e, 's, 'g) external \<Rightarrow> 'p \<Rightarrow> 'm list" where
  "legal_captures ext b = filter (is_capture ext b) (legal_moves ext b)"

text \<open>
  The running worst evaluation and the tied moves after a sequence of scored candidates:
  \<open>update_worst\<close> applied along the history.
\<close>

definition track :: "('e::linorder) option \<times> 'm tagged list \<Rightarrow> ('p, 'm, 'e) visit list \<Rightarrow> 'e option \<times> 'm tagged list" where
  "track acc vs = foldl (\<lambda>a v. update_worst a (candidate v) (evaluation v)) acc vs"

text \<open>
  The tenth of a clock of \<open>ms\<close> milliseconds, in seconds, as lines 207-208 compute it:
  \<^verbatim>\<open>timeLeft / 10\<close> after \<^verbatim>\<open>timeLeft /= 1000\<close>.
\<close>

definition clock_cap :: "rat \<Rightarrow> rat" where
  "clock_cap ms = float_div (float_div ms 1000) 10"

text \<open>
  The engine process replayed along a history: each entry is a call of \<^verbatim>\<open>analyse\<close> on the
  recorded position with the recorded time minus \<^verbatim>\<open>0.01\<close>, which has to answer the recorded
  score. The result is the state of the process after the last call.
\<close>

fun engine_replay ::
  "('p, 'm, 'e, 's, 'g) external \<Rightarrow> 's \<Rightarrow> ('p, 'm, 'e) visit list \<Rightarrow> 's option" where
  "engine_replay ext sf [] = Some sf"
| "engine_replay ext sf (v # vs) =
     (case analyse ext sf (position v) (float_sub (slice v) float_0_01) of
        None \<Rightarrow> None
      | Some result \<Rightarrow>
          if fst result = evaluation v then engine_replay ext (snd result) vs else None)"

section \<open>A four-square board for concrete runs\<close>

text \<open>
  An instance of the external parameters on which the selectors can be run. The board is a
  strip of four squares \<open>0..3\<close>; each side owns the pieces on the listed squares; a move
  \<open>(f, t)\<close> takes the piece of the side to move from \<open>f\<close> to any square \<open>t\<close> not occupied
  by that side, removing an opposing piece on \<open>t\<close>. As in python-chess, \<open>push\<close> saves the
  position on a stack from which \<open>pop\<close> restores it, and \<open>is_capture\<close> tests whether one of
  the two squares of the move is occupied by the opponent of the side to move. A side is in
  check when one of its pieces stands next to an opposing piece.
\<close>

datatype mini = Mini (to_move: bool) (white_sq: "nat list") (black_sq: "nat list") (stack: "mini list")

definition own :: "mini \<Rightarrow> nat list" where
  "own b = (if to_move b then white_sq b else black_sq b)"

definition opp :: "mini \<Rightarrow> nat list" where
  "opp b = (if to_move b then black_sq b else white_sq b)"

definition mini_legal :: "mini \<Rightarrow> (nat \<times> nat) list" where
  "mini_legal b = concat (map (\<lambda>f. map (\<lambda>t. (f, t)) (filter (\<lambda>t. t \<notin> set (own b)) [0..<4])) (own b))"

definition mini_is_capture :: "mini \<Rightarrow> nat \<times> nat \<Rightarrow> bool" where
  "mini_is_capture b m = (fst m \<in> set (opp b) \<or> snd m \<in> set (opp b))"

definition mini_is_check :: "mini \<Rightarrow> bool" where
  "mini_is_check b = list_ex (\<lambda>x. list_ex (\<lambda>y. x = Suc y \<or> y = Suc x) (opp b)) (own b)"

definition mini_push :: "mini \<Rightarrow> nat \<times> nat \<Rightarrow> mini" where
  "mini_push b m =
     (let moved = map (\<lambda>s. if s = fst m then snd m else s) (own b);
          rest = filter (\<lambda>s. s \<noteq> snd m) (opp b)
      in if to_move b then Mini False moved rest (b # stack b)
         else Mini True rest moved (b # stack b))"

definition mini_pop :: "mini \<Rightarrow> mini" where
  "mini_pop b = (case stack b of [] \<Rightarrow> b | p # ps \<Rightarrow> p)"

definition mini_fen :: "mini \<Rightarrow> string" where
  "mini_fen b =
     map (\<lambda>i. if i \<in> set (white_sq b) then CHR ''w'' else if i \<in> set (black_sq b) then CHR ''b'' else CHR ''.'') [0..<4]
       @ [if to_move b then CHR ''w'' else CHR ''b'']"

text \<open>
  The engine of the instance scores a position by the material of the side to move and keeps
  the list of the requests it received (position and time limit); the module-level engine
  answers \<open>None\<close> exactly when the side to move has no piece, and counts its calls.
\<close>

definition material :: "mini \<Rightarrow> int" where
  "material b = int (length (own b)) - int (length (opp b))"

definition mini_ext :: "(mini, nat \<times> nat, int, (mini \<times> rat) list, nat) external" where
  "mini_ext =
     \<lparr>legal_moves = mini_legal, is_capture = mini_is_capture, is_check = mini_is_check,
      push = mini_push, pop = mini_pop, fen = mini_fen,
      analyse = (\<lambda>log b t. Some (material b, log @ [(b, t)])),
      get_best_move = (\<lambda>g f. (if last f \<in> set (butlast f) then Some ''go'' else None, Suc g))\<rparr>"

text \<open>
  The same instance with an engine whose \<^verbatim>\<open>analyse\<close> always raises, and with one that raises
  on its second request.
\<close>

definition dead_ext :: "(mini, nat \<times> nat, int, (mini \<times> rat) list, nat) external" where
  "dead_ext = mini_ext\<lparr>analyse := (\<lambda>log b t. None)\<rparr>"


text \<open>
  Three positions with white to move: \<open>start\<close> has a white piece on 0 and a black piece on 3
  (legal moves \<open>(0, 1)\<close> quiet, \<open>(0, 2)\<close> check, \<open>(0, 3)\<close> capture); in \<open>stuck\<close> white has no
  piece and so no legal move; in \<open>lone\<close> black has no piece, so that no legal move captures.
\<close>

definition start :: "(mini, (mini \<times> rat) list, nat) world" where
  "start = \<lparr>board = Mini True [0] [3] [], engine = [], stockfish = 0\<rparr>"

definition stuck :: "(mini, (mini \<times> rat) list, nat) world" where
  "stuck = \<lparr>board = Mini True [] [3] [], engine = [], stockfish = 0\<rparr>"

definition lone :: "(mini, (mini \<times> rat) list, nat) world" where
  "lone = \<lparr>board = Mini True [0] [] [], engine = [], stockfish = 0\<rparr>"

text \<open>Four moves with their attributes, for the tie-break.\<close>

definition capture_move :: "string tagged" where
  "capture_move = \<lparr>move = ''exd5'', isCapture = True, isCheck = False\<rparr>"

definition check_move :: "string tagged" where
  "check_move = \<lparr>move = ''Bb5+'', isCapture = False, isCheck = True\<rparr>"

definition quiet_move :: "string tagged" where
  "quiet_move = \<lparr>move = ''a3'', isCapture = False, isCheck = False\<rparr>"

definition capture_check_move :: "string tagged" where
  "capture_check_move = \<lparr>move = ''Qxf7+'', isCapture = True, isCheck = True\<rparr>"

text \<open>
  Runs of \<^verbatim>\<open>WorstFish.search\<close> on \<open>start\<close>: with a \<^verbatim>\<open>Limit\<close>, and with a clock of \<open>T\<close>
  milliseconds; the components of their results; the first entry of the history; and the
  first iteration of the loop on its own.
\<close>

definition worst_run ::
  "error + (nat \<times> nat) PlayResult \<times> (mini, (mini \<times> rat) list, nat) world
     \<times> (mini, nat \<times> nat, int) locals" where
  "worst_run = WorstFish_search mini_ext 0 start Limit None"

definition worst_res :: "(nat \<times> nat) PlayResult" where
  "worst_res = fst (projr worst_run)"

definition worst_world :: "(mini, (mini \<times> rat) list, nat) world" where
  "worst_world = fst (snd (projr worst_run))"

definition worst_locals :: "(mini, nat \<times> nat, int) locals" where
  "worst_locals = snd (snd (projr worst_run))"

definition first_visit :: "(mini, nat \<times> nat, int) visit" where
  "first_visit = hd (visited worst_locals)"

definition clock_run ::
  "rat \<Rightarrow> error + (nat \<times> nat) PlayResult \<times> (mini, (mini \<times> rat) list, nat) world \<times> (mini, nat \<times> nat, int) locals" where
  "clock_run T = WorstFish_search mini_ext 0 start (Millis T) None"

definition clock_world :: "rat \<Rightarrow> (mini, (mini \<times> rat) list, nat) world" where
  "clock_world T = fst (snd (projr (clock_run T)))"

definition clock_locals :: "rat \<Rightarrow> (mini, nat \<times> nat, int) locals" where
  "clock_locals T = snd (snd (projr (clock_run T)))"

definition first_step ::
  "error + (mini, (mini \<times> rat) list, nat) world \<times> (mini, nat \<times> nat, int) locals" where
  "first_step = score_candidate mini_ext float_0_1 (start, no_locals) (0, 1)"

text \<open>
  What a run of the scoring loop on \<open>start\<close> leaves behind when every evaluation is given the
  time \<open>t\<close>: the history, the objects and the local variables.
\<close>

definition start_visits :: "rat \<Rightarrow> (mini, nat \<times> nat, int) visit list" where
  "start_visits t =
     [\<lparr>candidate = \<lparr>move = (0, 1), isCapture = False, isCheck = False\<rparr>,
       position = mini_push (board start) (0, 1), slice = t, evaluation = 0\<rparr>,
      \<lparr>candidate = \<lparr>move = (0, 2), isCapture = False, isCheck = True\<rparr>,
       position = mini_push (board start) (0, 2), slice = t, evaluation = 0\<rparr>,
      \<lparr>candidate = \<lparr>move = (0, 3), isCapture = True, isCheck = False\<rparr>,
       position = mini_push (board start) (0, 3), slice = t, evaluation = - 1\<rparr>]"

definition start_world :: "rat \<Rightarrow> (mini, (mini \<times> rat) list, nat) world" where
  "start_world t =
     \<lparr>board = board start,
      engine = [(mini_push (board start) (0, 1), float_sub t float_0_01),
                (mini_push (board start) (0, 2), float_sub t float_0_01),
                (mini_push (board start) (0, 3), float_sub t float_0_01)],
      stockfish = 0\<rparr>"

definition start_locals :: "rat \<Rightarrow> (mini, nat \<times> nat, int) locals" where
  "start_locals t =
     \<lparr>worstEvaluation = Some 0, worstMoves = map candidate (take 2 (start_visits t)),
      visited = start_visits t\<rparr>"

section \<open>Properties of the model\<close>

subsection \<open>Sampling and the tie-break\<close>

lemma choice_mem: "choice r xs = Inr x \<Longrightarrow> x \<in> set xs"
  by (auto simp: choice_def split: if_splits)

lemma choice_index: "k < length xs \<Longrightarrow> choice k xs = Inr (xs ! k)"
  by (auto simp: choice_def)


lemma count_draws:
  "length (filter (\<lambda>k. choice k xs = Inr x) [0..<length xs]) = count_list xs x"
proof -
  have "filter (\<lambda>k. choice k xs = Inr x) [0..<length xs] = filter (\<lambda>k. xs ! k = x) [0..<length xs]"
    by (rule filter_cong) (auto simp: choice_index)
  moreover have "length (filter (\<lambda>k. xs ! k = x) [0..<length xs]) = count_list xs x"
  proof (induction xs rule: rev_induct)
    case Nil
    show ?case by simp
  next
    case (snoc y ys)
    have "filter (\<lambda>k. (ys @ [y]) ! k = x) [0..<length ys] = filter (\<lambda>k. ys ! k = x) [0..<length ys]"
      by (rule filter_cong) (auto simp: nth_append)
    with snoc show ?case by (auto simp: nth_append)
  qed
  ultimately show ?thesis by simp
qed

lemma partition_worst_filter:
  "partition_worst ms cs ks os =
     (cs @ filter isCapture ms,
      ks @ filter (\<lambda>mv. \<not> isCapture mv \<and> isCheck mv) ms,
      os @ filter (\<lambda>mv. \<not> isCapture mv \<and> \<not> isCheck mv) ms)"
  by (induction ms arbitrary: cs ks os) auto

lemma filter_quiet:
  "filter (\<lambda>mv. \<not> isCapture mv \<and> \<not> isCheck mv) wm = filter quiet wm"
  by (rule filter_cong) (auto simp: quiet_def)

lemma tie_break_first_bucket: "tie_break r wm = choice r (first_bucket wm)"
  by (simp add: tie_break_def partition_worst_filter first_bucket_def filter_quiet)

lemma first_bucket_subset: "set (first_bucket wm) \<subseteq> set wm"
  by (auto simp: first_bucket_def)


lemma tie_break_Inl: "tie_break r wm = Inl e \<Longrightarrow> e = IndexError \<and> wm = []"
  by (auto simp: tie_break_first_bucket choice_def first_bucket_def filter_empty_conv quiet_def
      split: if_splits)

subsection \<open>Rounding to a double\<close>



lemma round_half_even_nonneg: "0 \<le> y \<Longrightarrow> 0 \<le> round_half_even y"
  by (auto simp: round_half_even_def Let_def)

lemma round_half_even_nonpos: "y \<le> 0 \<Longrightarrow> round_half_even y \<le> 0"
proof -
  assume y: "y \<le> 0"
  show ?thesis
  proof (cases "y = 0")
    case True
    then show ?thesis by (simp add: round_half_even_def)
  next
    case False
    with y have "y < 0" by simp
    then have f: "\<lfloor>y\<rfloor> \<le> - 1" by (simp add: floor_le_iff)
    have "round_half_even y \<le> \<lfloor>y\<rfloor> + 1" by (simp add: round_half_even_def Let_def)
    with f show ?thesis by linarith
  qed
qed

lemma round64_nonneg: "0 \<le> x \<Longrightarrow> 0 \<le> round64 x"
  by (auto simp: round64_def Let_def
      intro!: mult_nonneg_nonneg round_half_even_nonneg divide_nonneg_pos)

lemma round64_nonpos: "x \<le> 0 \<Longrightarrow> round64 x \<le> 0"
  by (auto simp: round64_def Let_def
      intro!: mult_nonpos_nonneg round_half_even_nonpos divide_nonpos_pos)





lemma float_0_01_value: "float_0_01 = 5764607523034235 / 576460752303423488"
  by code_simp

subsection \<open>The time per evaluation\<close>

lemma clock_cap_nonneg: "0 \<le> T \<Longrightarrow> 0 \<le> clock_cap T"
  by (simp add: clock_cap_def float_div_def round64_nonneg)





lemma search_time_Inl: "search_time tleft n = Inl e \<Longrightarrow> e = ZeroDivisionError \<and> n = 0"
  by (auto simp: search_time_def Let_def split: timeLeft.splits if_splits)


subsection \<open>The scoring loop\<close>

lemma score_candidate_Inr:
  assumes "score_candidate ext t (w, l) m = Inr (w', l')"
  shows "\<exists>ev sf. analyse ext (engine w) (push ext (board w) m) (float_sub t float_0_01) = Some (ev, sf)
           \<and> w' = w\<lparr>board := pop ext (push ext (board w) m), engine := sf\<rparr>
           \<and> (worstEvaluation l', worstMoves l') =
               update_worst (worstEvaluation l, worstMoves l)
                 \<lparr>move = m, isCapture = is_capture ext (board w) m,
                  isCheck = is_check ext (push ext (board w) m)\<rparr> ev
           \<and> visited l' = visited l @
               [\<lparr>candidate = \<lparr>move = m, isCapture = is_capture ext (board w) m,
                              isCheck = is_check ext (push ext (board w) m)\<rparr>,
                 position = push ext (board w) m, slice = t, evaluation = ev\<rparr>]"
  using assms
  by (auto simp: score_candidate_def evaluate_def Let_def split: option.splits sum.splits)

lemma score_candidate_Inl: "score_candidate ext t st m = Inl e \<Longrightarrow> e = EngineError"
  by (auto simp: score_candidate_def evaluate_def Let_def split: option.splits sum.splits)

lemma scoring_loop_Inr:
  assumes "scoring_loop ext t ms (w, l) = Inr (w', l')"
  shows "\<exists>vs. visited l' = visited l @ vs
           \<and> map (\<lambda>v. move (candidate v)) vs = ms
           \<and> (\<forall>v \<in> set vs. slice v = t)
           \<and> (worstEvaluation l', worstMoves l') = track (worstEvaluation l, worstMoves l) vs
           \<and> stockfish w' = stockfish w"
  using assms
proof (induction ms arbitrary: w l)
  case Nil
  then show ?case by (auto simp: track_def)
next
  case (Cons m ms)
  from Cons.prems obtain w1 l1 where
    step: "score_candidate ext t (w, l) m = Inr (w1, l1)" and
    rest: "scoring_loop ext t ms (w1, l1) = Inr (w', l')"
    by (auto split: sum.splits)
  from score_candidate_Inr [OF step] obtain ev sf where
    w1: "w1 = w\<lparr>board := pop ext (push ext (board w) m), engine := sf\<rparr>" and
    upd: "(worstEvaluation l1, worstMoves l1) =
               update_worst (worstEvaluation l, worstMoves l)
                 \<lparr>move = m, isCapture = is_capture ext (board w) m,
                  isCheck = is_check ext (push ext (board w) m)\<rparr> ev" and
    vis: "visited l1 = visited l @
               [\<lparr>candidate = \<lparr>move = m, isCapture = is_capture ext (board w) m,
                              isCheck = is_check ext (push ext (board w) m)\<rparr>,
                 position = push ext (board w) m, slice = t, evaluation = ev\<rparr>]"
    by blast
  from Cons.IH [OF rest] obtain vs where
    a: "visited l' = visited l1 @ vs" and
    b: "map (\<lambda>v. move (candidate v)) vs = ms" and
    c: "\<forall>v \<in> set vs. slice v = t" and
    d: "(worstEvaluation l', worstMoves l') = track (worstEvaluation l1, worstMoves l1) vs" and
    e: "stockfish w' = stockfish w1"
    by blast
  let ?v = "\<lparr>candidate = \<lparr>move = m, isCapture = is_capture ext (board w) m,
                              isCheck = is_check ext (push ext (board w) m)\<rparr>,
                 position = push ext (board w) m, slice = t, evaluation = ev\<rparr>"
  show ?case
    apply (rule exI [of _ "?v # vs"])
    using a b c d e w1 upd vis by (simp add: track_def)
qed

lemma scoring_loop_Inl: "scoring_loop ext t ms st = Inl e \<Longrightarrow> e = EngineError"
  by (induction ms arbitrary: st) (auto split: sum.splits dest: score_candidate_Inl)

lemma scoring_loop_law:
  assumes "scoring_loop ext t ms (w, l) = Inr (w', l')"
    and "\<forall>m \<in> set ms. pop ext (push ext (board w) m) = board w"
  shows "board w' = board w \<and>
         (\<forall>v \<in> set (drop (length (visited l)) (visited l')).
            position v = push ext (board w) (move (candidate v)) \<and>
            isCapture (candidate v) = is_capture ext (board w) (move (candidate v)) \<and>
            isCheck (candidate v) = is_check ext (position v))"
  using assms
proof (induction ms arbitrary: w l)
  case Nil
  then show ?case by auto
next
  case (Cons m ms)
  from Cons.prems(1) obtain w1 l1 where
    step: "score_candidate ext t (w, l) m = Inr (w1, l1)" and
    rest: "scoring_loop ext t ms (w1, l1) = Inr (w', l')"
    by (auto split: sum.splits)
  from score_candidate_Inr [OF step] obtain ev sf where
    w1: "w1 = w\<lparr>board := pop ext (push ext (board w) m), engine := sf\<rparr>" and
    vis: "visited l1 = visited l @
               [\<lparr>candidate = \<lparr>move = m, isCapture = is_capture ext (board w) m,
                              isCheck = is_check ext (push ext (board w) m)\<rparr>,
                 position = push ext (board w) m, slice = t, evaluation = ev\<rparr>]"
    by blast
  have b1: "board w1 = board w" using w1 Cons.prems(2) by simp
  have law1: "\<forall>m \<in> set ms. pop ext (push ext (board w1) m) = board w1"
    using b1 Cons.prems(2) by simp
  from scoring_loop_Inr [OF rest] obtain vs where
    a: "visited l' = visited l1 @ vs" by blast
  from Cons.IH [OF rest law1] have
    ih: "board w' = board w1 \<and>
         (\<forall>v \<in> set (drop (length (visited l1)) (visited l')).
            position v = push ext (board w1) (move (candidate v)) \<and>
            isCapture (candidate v) = is_capture ext (board w1) (move (candidate v)) \<and>
            isCheck (candidate v) = is_check ext (position v))" .
  show ?case using ih a vis b1 by auto
qed

lemma track_Some:
  "track (Some w, wm) vs =
     (Some (Max (insert w (evaluation ` set vs))),
      (if w = Max (insert w (evaluation ` set vs)) then wm else []) @
      map candidate (filter (\<lambda>v. evaluation v = Max (insert w (evaluation ` set vs))) vs))"
proof (induction vs arbitrary: w wm)
  case Nil
  then show ?case by (simp add: track_def)
next
  case (Cons v vs)
  let ?e = "evaluation v"
  let ?S = "evaluation ` set vs"
  define N where "N = Max (insert w (evaluation ` set (v # vs)))"
  have fin: "finite ?S" by simp
  have N: "N = Max (insert w (insert ?e ?S))" by (simp add: N_def)
  have goal: "track (Some w, wm) (v # vs) =
     (Some N, (if w = N then wm else []) @ map candidate (filter (\<lambda>x. evaluation x = N) (v # vs)))"
  proof -
    consider (lt) "w < ?e" | (eq) "w = ?e" | (gt) "?e < w" by (meson linorder_less_linear)
    then show ?thesis
    proof cases
      case lt
      define N1 where "N1 = Max (insert ?e ?S)"
      have ge: "?e \<le> N1" unfolding N1_def using fin by simp
      have le: "w \<le> N1" by (rule order.trans [OF less_imp_le [OF lt] ge])
      have "Max (insert w (insert ?e ?S)) = max w (Max (insert ?e ?S))"
        by (rule Max_insert) (use fin in auto)
      also have "\<dots> = N1"
        unfolding N1_def [symmetric] by (rule max_absorb2) (rule le)
      finally have M: "N = N1" by (simp only: N)
      have ne: "w \<noteq> N1" using lt ge by auto
      have st: "track (Some w, wm) (v # vs) = track (Some ?e, [candidate v]) vs"
        using lt by (simp add: track_def)
      have ih: "track (Some ?e, [candidate v]) vs =
        (Some N1, (if ?e = N1 then [candidate v] else []) @
           map candidate (filter (\<lambda>x. evaluation x = N1) vs))"
        unfolding N1_def by (rule Cons.IH)
      show ?thesis unfolding st ih M using ne by simp
    next
      case eq
      define N1 where "N1 = Max (insert w ?S)"
      have M: "N = N1" unfolding N N1_def using eq by simp
      have st: "track (Some w, wm) (v # vs) = track (Some w, wm @ [candidate v]) vs"
        using eq by (simp add: track_def)
      have ih: "track (Some w, wm @ [candidate v]) vs =
        (Some N1, (if w = N1 then wm @ [candidate v] else []) @
           map candidate (filter (\<lambda>x. evaluation x = N1) vs))"
        unfolding N1_def by (rule Cons.IH)
      show ?thesis unfolding st ih M using eq [symmetric] by simp
    next
      case gt
      define N1 where "N1 = Max (insert w ?S)"
      have ge: "w \<le> N1" unfolding N1_def using fin by simp
      have le: "?e \<le> N1" by (rule order.trans [OF less_imp_le [OF gt] ge])
      have "Max (insert ?e (insert w ?S)) = max ?e (Max (insert w ?S))"
        by (rule Max_insert) (use fin in auto)
      also have "\<dots> = N1"
        unfolding N1_def [symmetric] by (rule max_absorb2) (rule le)
      finally have M: "N = N1" by (simp only: N insert_commute)
      have ne: "?e \<noteq> N1" using gt ge by auto
      have ngt: "\<not> w < ?e" and neq: "w \<noteq> ?e" using gt by auto
      have st: "track (Some w, wm) (v # vs) = track (Some w, wm) vs"
        using ngt neq by (simp add: track_def)
      have ih: "track (Some w, wm) vs =
        (Some N1, (if w = N1 then wm else []) @
           map candidate (filter (\<lambda>x. evaluation x = N1) vs))"
        unfolding N1_def by (rule Cons.IH)
      show ?thesis unfolding st ih M using ne by simp
    qed
  qed
  then show ?case unfolding N_def .
qed

lemma track_None:
  "vs \<noteq> [] \<Longrightarrow> track (None, []) vs =
     (Some (Max (evaluation ` set vs)),
      map candidate (filter (\<lambda>v. evaluation v = Max (evaluation ` set vs)) vs))"
proof (cases vs)
  case Nil
  then show "vs \<noteq> [] \<Longrightarrow> ?thesis" by simp
next
  case (Cons v vs')
  have "track (None, []) (v # vs') = track (Some (evaluation v), [candidate v]) vs'"
    by (simp add: track_def)
  then show ?thesis using Cons by (simp add: track_Some)
qed

lemma track_subset: "set (snd (track acc vs)) \<subseteq> set (snd acc) \<union> candidate ` set vs"
proof (induction vs arbitrary: acc)
  case Nil
  then show ?case by (simp add: track_def)
next
  case (Cons v vs)
  obtain we wm where acc: "acc = (we, wm)" by (cases acc)
  have step: "track acc (v # vs) = track (update_worst acc (candidate v) (evaluation v)) vs"
    by (simp add: track_def)
  have "set (snd (update_worst acc (candidate v) (evaluation v))) \<subseteq> set (snd acc) \<union> {candidate v}"
    unfolding acc by (cases we) auto
  with Cons.IH [of "update_worst acc (candidate v) (evaluation v)"] show ?case
    unfolding step by auto
qed

lemma engine_replay_loop:
  assumes "scoring_loop ext t ms (w, l) = Inr (w', l')"
  shows "engine_replay ext (engine w) (drop (length (visited l)) (visited l')) = Some (engine w')"
  using assms
proof (induction ms arbitrary: w l)
  case Nil
  then show ?case by simp
next
  case (Cons m ms)
  from Cons.prems obtain w1 l1 where
    step: "score_candidate ext t (w, l) m = Inr (w1, l1)" and
    rest: "scoring_loop ext t ms (w1, l1) = Inr (w', l')"
    by (auto split: sum.splits)
  let ?mv = "\<lparr>move = m, isCapture = is_capture ext (board w) m,
              isCheck = is_check ext (push ext (board w) m)\<rparr>"
  from score_candidate_Inr [OF step] obtain ev sf where
    an: "analyse ext (engine w) (push ext (board w) m) (float_sub t float_0_01) = Some (ev, sf)" and
    w1: "w1 = w\<lparr>board := pop ext (push ext (board w) m), engine := sf\<rparr>" and
    vis: "visited l1 = visited l @
            [\<lparr>candidate = ?mv, position = push ext (board w) m, slice = t, evaluation = ev\<rparr>]"
    by blast
  from scoring_loop_Inr [OF rest] obtain vs where a: "visited l' = visited l1 @ vs" by blast
  have d0: "drop (length (visited l)) (visited l')
      = \<lparr>candidate = ?mv, position = push ext (board w) m, slice = t, evaluation = ev\<rparr> # vs"
    by (simp add: a vis)
  have d1: "drop (length (visited l1)) (visited l') = vs" by (simp add: a)
  from Cons.IH [OF rest] have "engine_replay ext sf vs = Some (engine w')"
    by (simp add: d1 w1)
  then show ?case by (simp add: d0 an)
qed

lemma board_after_loop_Inr:
  "scoring_loop ext t ms st = Inr st' \<Longrightarrow> board_after_loop ext t ms st = board (fst st')"
  by (induction ms arbitrary: st) (auto split: sum.splits)

lemma round_trip_iterated:
  "pop ext (push ext b m) = b \<Longrightarrow> ((\<lambda>p. pop ext (push ext p m)) ^^ k) b = b"
  by (induction k) auto

subsection \<open>The two \<^verbatim>\<open>search\<close> methods\<close>

lemma WorstFish_search_Inr:
  assumes "WorstFish_search ext r w tleft rm = Inr (res, w', l)"
  shows "\<exists>t mv. search_time tleft (length (legal_moves ext (board w))) = Inr t
           \<and> scoring_loop ext t (legal_moves ext (board w)) (w, no_locals) = Inr (w', l)
           \<and> tie_break r (worstMoves l) = Inr mv \<and> res = PlayMove (move mv)"
  using assms
  by (auto simp: WorstFish_search_def Let_def no_locals_def split: sum.splits)

lemma WorstFish_search_visited:
  assumes "WorstFish_search ext r w tleft rm = Inr (res, w', l)"
  shows "\<exists>t. search_time tleft (length (legal_moves ext (board w))) = Inr t
           \<and> map (\<lambda>v. move (candidate v)) (visited l) = legal_moves ext (board w)
           \<and> (\<forall>v \<in> set (visited l). slice v = t)
           \<and> (worstEvaluation l, worstMoves l) = track (None, []) (visited l)
           \<and> visited l \<noteq> []"
proof -
  from WorstFish_search_Inr [OF assms] obtain t mv where
    t: "search_time tleft (length (legal_moves ext (board w))) = Inr t" and
    loop: "scoring_loop ext t (legal_moves ext (board w)) (w, no_locals) = Inr (w', l)" and
    tb: "tie_break r (worstMoves l) = Inr mv"
    by blast
  from scoring_loop_Inr [OF loop] have
    a: "map (\<lambda>v. move (candidate v)) (visited l) = legal_moves ext (board w)" and
    b: "\<forall>v \<in> set (visited l). slice v = t" and
    c: "(worstEvaluation l, worstMoves l) = track (None, []) (visited l)"
    by (auto simp: no_locals_def)
  have "worstMoves l \<noteq> []"
    using tb by (auto simp: tie_break_def choice_def)
  with c have "visited l \<noteq> []"
    by (auto simp: track_def)
  with t a b c show ?thesis by blast
qed

lemma WorstFish_search_replay:
  assumes "WorstFish_search ext r w tleft rm = Inr (res, w', l)"
  shows "engine_replay ext (engine w) (visited l) = Some (engine w')"
proof -
  from WorstFish_search_Inr [OF assms] obtain t where
    "scoring_loop ext t (legal_moves ext (board w)) (w, no_locals) = Inr (w', l)"
    by blast
  from engine_replay_loop [OF this] show ?thesis by (simp add: no_locals_def)
qed

lemma WorstFish_board_after_Inr:
  assumes "WorstFish_search ext r w tleft rm = Inr (res, w', l)"
  shows "WorstFish_board_after ext w tleft = board w'"
proof -
  from WorstFish_search_Inr [OF assms] obtain t where
    t: "search_time tleft (length (legal_moves ext (board w))) = Inr t" and
    loop: "scoring_loop ext t (legal_moves ext (board w)) (w, no_locals) = Inr (w', l)"
    by blast
  from board_after_loop_Inr [OF loop] t show ?thesis
    by (simp add: WorstFish_board_after_def)
qed

lemma WorstFish_search_Inl:
  "WorstFish_search ext r w tleft rm = Inl e \<Longrightarrow>
     e = IndexError \<or> e = ZeroDivisionError \<or> e = EngineError"
  by (auto simp: WorstFish_search_def Let_def split: sum.splits
      dest: search_time_Inl scoring_loop_Inl tie_break_Inl)

lemma WorstFish_search_law:
  assumes law: "\<forall>m \<in> set (legal_moves ext (board w)). pop ext (push ext (board w) m) = board w"
    and s: "WorstFish_search ext r w tleft rm = Inr (res, w', l)"
  shows "board w' = board w \<and>
         (\<forall>v \<in> set (visited l).
            position v = push ext (board w) (move (candidate v)) \<and>
            isCapture (candidate v) = is_capture ext (board w) (move (candidate v)) \<and>
            isCheck (candidate v) = is_check ext (position v))"
proof -
  from WorstFish_search_Inr [OF s] obtain t where
    loop: "scoring_loop ext t (legal_moves ext (board w)) (w, no_locals) = Inr (w', l)"
    by blast
  from scoring_loop_law [OF loop law] show ?thesis
    by (simp add: no_locals_def)
qed

text \<open>
  Without a legal move the loops do nothing and \<^verbatim>\<open>random.choice\<close> raises on the empty list;
  when the tenth of the clock is negative the division of line 209 raises first.
\<close>

lemma WorstFish_no_moves:
  assumes "legal_moves ext (board w) = []"
  shows "WorstFish_search ext r w Limit rm = Inl IndexError"
    and "0 \<le> clock_cap T \<Longrightarrow> WorstFish_search ext r w (Millis T) rm = Inl IndexError"
    and "clock_cap T < 0 \<Longrightarrow> WorstFish_search ext r w (Millis T) rm = Inl ZeroDivisionError"
proof -
  show "WorstFish_search ext r w Limit rm = Inl IndexError"
    using assms
    by (simp add: WorstFish_search_def search_time_def tie_break_def choice_def no_locals_def)
  show "WorstFish_search ext r w (Millis T) rm = Inl IndexError" if "0 \<le> clock_cap T"
  proof -
    from that have "\<not> float_mul 0 float_0_1 > float_div (float_div T 1000) 10"
      by (simp add: float_mul_def round64_def clock_cap_def)
    then show ?thesis
      using assms
      by (simp add: WorstFish_search_def search_time_def tie_break_def choice_def no_locals_def)
  qed
  show "WorstFish_search ext r w (Millis T) rm = Inl ZeroDivisionError" if "clock_cap T < 0"
  proof -
    from that have "float_mul 0 float_0_1 > float_div (float_div T 1000) 10"
      by (simp add: float_mul_def round64_def clock_cap_def)
    then show ?thesis
      using assms
      by (simp add: WorstFish_search_def search_time_def)
  qed
qed

lemma best_move_Inl: "best_move ext w = Inl e \<Longrightarrow> e = TypeError"
  by (auto simp: best_move_def split: option.splits)

lemma TestFish_strategy_Inl:
  "TestFish_strategy ext mt r w tleft rm = Inl e \<Longrightarrow>
     e = IndexError \<or> e = ZeroDivisionError \<or> e = EngineError \<or> e = TypeError"
  by (cases mt)
    (auto simp: choice_def Let_def split: if_splits sum.splits
      dest: best_move_Inl WorstFish_search_Inl)

lemma choice_move_types_Capture: "r0 mod 6 = 5 \<Longrightarrow> choice r0 move_types = Inr Capture"
  by (simp add: choice_def move_types_def)

lemma choice_move_types_Best: "q0 mod 6 < 3 \<Longrightarrow> choice q0 move_types = Inr Best"
proof -
  assume "q0 mod 6 < 3"
  then have "q0 mod 6 = 0 \<or> q0 mod 6 = 1 \<or> q0 mod 6 = 2" by arith
  then show ?thesis
    by (auto simp: choice_def move_types_def)
qed

text \<open>Neither method reads \<^verbatim>\<open>*args\<close>: the result does not depend on \<open>root_moves\<close>.\<close>

lemma root_moves_ignored:
  "WorstFish_search ext r w tleft rm = WorstFish_search ext r w tleft None"
  "TestFish_search ext r0 r w tleft rm = TestFish_search ext r0 r w tleft None"
proof -
  show a: "WorstFish_search ext r w tleft rm = WorstFish_search ext r w tleft None"
    by (simp add: WorstFish_search_def)
  have "TestFish_strategy ext mt r w tleft rm = TestFish_strategy ext mt r w tleft None" for mt
    by (cases mt) (simp_all add: WorstFish_search_def)
  then show "TestFish_search ext r0 r w tleft rm = TestFish_search ext r0 r w tleft None"
    by (simp add: TestFish_search_def split: sum.splits)
qed



text \<open>
  When a call of \<^verbatim>\<open>WorstFish.search\<close> returns and \<open>pop\<close> undoes \<open>push\<close> for the legal moves
  of the position of the call, the board is left as it was: every legal move is visited,
  each is applied to the position of the call, and reverting it gives that position back.
\<close>

lemma worst_round_trip_when_returning:
  "(\<forall>m \<in> set (legal_moves ext (board w)). pop ext (push ext (board w) m) = board w)
   \<and> WorstFish_search ext r w tleft rm = Inr (res, w', l)
   \<longrightarrow> board w' = board w
       \<and> WorstFish_board_after ext w tleft = board w
       \<and> map (\<lambda>v. move (candidate v)) (visited l) = legal_moves ext (board w)
       \<and> (\<forall>v \<in> set (visited l).
            position v = push ext (board w) (move (candidate v))
            \<and> pop ext (position v) = board w)"
proof
  assume a: "(\<forall>m \<in> set (legal_moves ext (board w)). pop ext (push ext (board w) m) = board w)
   \<and> WorstFish_search ext r w tleft rm = Inr (res, w', l)"
  then have law: "\<forall>m \<in> set (legal_moves ext (board w)). pop ext (push ext (board w) m) = board w"
    and s: "WorstFish_search ext r w tleft rm = Inr (res, w', l)"
    by blast+
  from WorstFish_search_law [OF law s] have
    b: "board w' = board w" and
    p: "\<forall>v \<in> set (visited l). position v = push ext (board w) (move (candidate v))"
    by blast+
  from WorstFish_board_after_Inr [OF s] b have ba: "WorstFish_board_after ext w tleft = board w"
    by simp
  from WorstFish_search_visited [OF s] have
    mv: "map (\<lambda>v. move (candidate v)) (visited l) = legal_moves ext (board w)"
    by blast
  have legal: "move (candidate v) \<in> set (legal_moves ext (board w))" if "v \<in> set (visited l)" for v
  proof -
    from that have "move (candidate v) \<in> set (map (\<lambda>v. move (candidate v)) (visited l))"
      by (simp add: image_iff) blast
    then show ?thesis by (simp only: mv)
  qed
  have each: "position v = push ext (board w) (move (candidate v)) \<and> pop ext (position v) = board w"
    if v: "v \<in> set (visited l)" for v
  proof -
    from law legal [OF v] have rt: "pop ext (push ext (board w) (move (candidate v))) = board w"
      by blast
    from p v have pv: "position v = push ext (board w) (move (candidate v))" by blast
    from rt pv show ?thesis by simp
  qed
  from b ba mv each show "board w' = board w
       \<and> WorstFish_board_after ext w tleft = board w
       \<and> map (\<lambda>v. move (candidate v)) (visited l) = legal_moves ext (board w)
       \<and> (\<forall>v \<in> set (visited l).
            position v = push ext (board w) (move (candidate v))
            \<and> pop ext (position v) = board w)"
    by blast
qed

subsection \<open>The concrete runs\<close>

lemma search_time_Limit: "search_time Limit n = Inr float_0_1"
  by (simp add: search_time_def)

lemma float_limit_value: "float_sub float_0_1 float_0_01 = 6485183463413515 / 72057594037927936"
  by code_simp






lemma search_time_0: "search_time (Millis 0) 3 = Inr 0"
  by code_simp

lemma start_legal: "legal_moves mini_ext (board start) = [(0, 1), (0, 2), (0, 3)]"
  by code_simp

text \<open>The scoring loop on \<open>start\<close>, for any time per evaluation.\<close>

lemma start_loop:
  "scoring_loop mini_ext t [(0, 1), (0, 2), (0, 3)] (start, no_locals)
     = Inr (start_world t, start_locals t)"
  by (simp add: score_candidate_def evaluate_def no_locals_def start_world_def start_locals_def
      start_visits_def mini_ext_def start_def mini_is_capture_def mini_is_check_def mini_push_def
      mini_pop_def material_def own_def opp_def Let_def)

lemma start_search:
  assumes "search_time tleft 3 = Inr t"
  shows "WorstFish_search mini_ext r start tleft rm
           = Inr (PlayMove (0, 1), start_world t, start_locals t)"
proof -
  have tb: "tie_break r (worstMoves (start_locals t))
      = Inr \<lparr>move = (0, 1), isCapture = False, isCheck = False\<rparr>"
    by (simp add: tie_break_def choice_def start_locals_def start_visits_def)
  have len: "length [(0 :: nat, 1 :: nat), (0, 2), (0, 3)] = 3" by simp
  have eq: "WorstFish_search mini_ext r start tleft rm =
      (case scoring_loop mini_ext t [(0, 1), (0, 2), (0, 3)] (start, no_locals) of
         Inl e \<Rightarrow> Inl e
       | Inr st \<Rightarrow>
           (case tie_break r (worstMoves (snd st)) of
              Inl e \<Rightarrow> Inl e
            | Inr mv \<Rightarrow> Inr (PlayMove (move mv), fst st, snd st)))"
    unfolding WorstFish_search_def Let_def start_legal len assms by simp
  show ?thesis unfolding eq start_loop by (simp add: tb)
qed

lemma worst_run_value:
  "worst_run = Inr (PlayMove (0, 1), start_world float_0_1, start_locals float_0_1)"
  unfolding worst_run_def by (rule start_search) (rule search_time_Limit)

lemma worst_parts:
  "worst_res = PlayMove (0, 1)"
  "worst_world = start_world float_0_1"
  "worst_locals = start_locals float_0_1"
  by (simp_all add: worst_res_def worst_world_def worst_locals_def worst_run_value)

lemma worst_run_Inr: "worst_run = Inr (worst_res, worst_world, worst_locals)"
  by (simp add: worst_run_value worst_parts)

lemma worst_run_eq:
  "WorstFish_search mini_ext 0 start Limit None = Inr (worst_res, worst_world, worst_locals)"
  using worst_run_Inr by (simp add: worst_run_def)

lemma clock_run_value:
  assumes "search_time (Millis T) 3 = Inr t"
  shows "WorstFish_search mini_ext 0 start (Millis T) None
           = Inr (PlayMove (0, 1), clock_world T, clock_locals T)"
    and "clock_run T = Inr (PlayMove (0, 1), clock_world T, clock_locals T)"
    and "clock_world T = start_world t"
    and "clock_locals T = start_locals t"
proof -
  have v: "clock_run T = Inr (PlayMove (0, 1), start_world t, start_locals t)"
    unfolding clock_run_def by (rule start_search) (rule assms)
  show w: "clock_world T = start_world t" and l: "clock_locals T = start_locals t"
    by (simp_all add: clock_world_def clock_locals_def v)
  show r: "clock_run T = Inr (PlayMove (0, 1), clock_world T, clock_locals T)"
    by (simp add: v w l)
  then show "WorstFish_search mini_ext 0 start (Millis T) None
           = Inr (PlayMove (0, 1), clock_world T, clock_locals T)"
    by (simp add: clock_run_def)
qed

lemma first_step_Inr:
  "score_candidate mini_ext float_0_1 (start, no_locals) (0, 1)
     = Inr (fst (projr first_step), snd (projr first_step))"
  by (simp add: first_step_def score_candidate_def evaluate_def no_locals_def
      mini_ext_def start_def mini_is_capture_def mini_is_check_def mini_push_def
      mini_pop_def material_def own_def opp_def Let_def)




lemma mini_round_trip: "pop mini_ext (push mini_ext b m) = b"
  by (cases b) (simp add: mini_ext_def mini_push_def mini_pop_def Let_def)

lemma start_law:
  "\<forall>m \<in> set (legal_moves mini_ext (board start)). pop mini_ext (push mini_ext (board start) m) = board start"
  by (simp add: mini_round_trip)

section \<open>The claims\<close>

subsection \<open>Claim C1\<close>



subsection \<open>Claim C2\<close>




subsection \<open>Claim C3\<close>

text \<open>
  Claim C3. The update of the scoring loop: the first evaluation, or one strictly greater than
  the running worst value, makes the candidate the only tied move; an equal one appends the
  candidate; a smaller one changes nothing. The evaluation of a candidate is the engine's
  answer for the position after the move, relative to the side to move there. After the loop
  the worst value is the maximum of the evaluations and the tied moves are the candidates
  that reach it, in the order of enumeration.
\<close>

theorem worst_tracks_maximum_evaluation:
  "update_worst (None, wm) mv ev = (Some ev, [mv])
   \<and> (cur < ev \<longrightarrow> update_worst (Some cur, wm) mv ev = (Some ev, [mv]))
   \<and> update_worst (Some cur, wm) mv cur = (Some cur, wm @ [mv])
   \<and> (ev < cur \<longrightarrow> update_worst (Some cur, wm) mv ev = (Some cur, wm))
   \<and> (score_candidate ext t (w, l) m = Inr (w1, l1) \<longrightarrow>
        (\<exists>sc sf. analyse ext (engine w) (push ext (board w) m) (float_sub t float_0_01) = Some (sc, sf)
           \<and> (worstEvaluation l1, worstMoves l1) =
                update_worst (worstEvaluation l, worstMoves l)
                  \<lparr>move = m, isCapture = is_capture ext (board w) m,
                   isCheck = is_check ext (push ext (board w) m)\<rparr> sc))
   \<and> (WorstFish_search ext r w tleft rm = Inr (res, w', l') \<longrightarrow>
        map (\<lambda>v. move (candidate v)) (visited l') = legal_moves ext (board w)
        \<and> worstEvaluation l' = Some (Max (evaluation ` set (visited l')))
        \<and> worstMoves l' = map candidate
            (filter (\<lambda>v. evaluation v = Max (evaluation ` set (visited l'))) (visited l')))"
proof (intro conjI impI)
  assume "score_candidate ext t (w, l) m = Inr (w1, l1)"
  from score_candidate_Inr [OF this]
  show "\<exists>sc sf. analyse ext (engine w) (push ext (board w) m) (float_sub t float_0_01) = Some (sc, sf)
           \<and> (worstEvaluation l1, worstMoves l1) =
                update_worst (worstEvaluation l, worstMoves l)
                  \<lparr>move = m, isCapture = is_capture ext (board w) m,
                   isCheck = is_check ext (push ext (board w) m)\<rparr> sc"
    by blast
next
  assume s: "WorstFish_search ext r w tleft rm = Inr (res, w', l')"
  from WorstFish_search_visited [OF s] have
    a: "map (\<lambda>v. move (candidate v)) (visited l') = legal_moves ext (board w)" and
    c: "(worstEvaluation l', worstMoves l') = track (None, []) (visited l')" and
    ne: "visited l' \<noteq> []"
    by auto
  show "map (\<lambda>v. move (candidate v)) (visited l') = legal_moves ext (board w)" by (rule a)
  from c track_None [OF ne] show "worstEvaluation l' = Some (Max (evaluation ` set (visited l')))"
    by simp
  from c track_None [OF ne] show "worstMoves l' = map candidate
            (filter (\<lambda>v. evaluation v = Max (evaluation ` set (visited l'))) (visited l'))"
    by simp
qed auto

text \<open>C3 on three updates, on the first iteration and on the whole run on \<open>start\<close>.\<close>

theorem worst_tracks_maximum_evaluation_witness:
  "update_worst (Some (0 :: int), [quiet_move]) check_move 5 = (Some 5, [check_move])
   \<and> update_worst (Some (5 :: int), [quiet_move]) check_move 5 = (Some 5, [quiet_move, check_move])
   \<and> update_worst (Some (5 :: int), [quiet_move]) check_move 0 = (Some 5, [quiet_move])
   \<and> analyse mini_ext [] (push mini_ext (board start) (0, 1)) (float_sub float_0_1 float_0_01)
        = Some (0, [(push mini_ext (board start) (0, 1), float_sub float_0_1 float_0_01)])
   \<and> map evaluation (visited worst_locals) = [0, 0, - 1]
   \<and> worstEvaluation worst_locals = Some 0
   \<and> map move (worstMoves worst_locals) = [(0, 1), (0, 2)]"
proof -
  from worst_tracks_maximum_evaluation [where cur = "0 :: int" and ev = 5 and wm = "[quiet_move]" and mv = check_move]
  have a: "update_worst (Some (0 :: int), [quiet_move]) check_move 5 = (Some 5, [check_move])"
    by simp
  from worst_tracks_maximum_evaluation [where cur = "5 :: int" and ev = 0 and wm = "[quiet_move]" and mv = check_move]
  have b: "update_worst (Some (5 :: int), [quiet_move]) check_move 5 = (Some 5, [quiet_move, check_move])"
    and c: "update_worst (Some (5 :: int), [quiet_move]) check_move 0 = (Some 5, [quiet_move])"
    by simp_all
  from worst_tracks_maximum_evaluation [where ext = mini_ext and t = float_0_1 and w = start and l = no_locals
      and m = "(0, 1)" and ?w1.0 = "fst (projr first_step)" and ?l1.0 = "snd (projr first_step)"]
    first_step_Inr
  have "\<exists>sc sf. analyse mini_ext (engine start) (push mini_ext (board start) (0, 1))
          (float_sub float_0_1 float_0_01) = Some (sc, sf)"
    by blast
  moreover have "analyse mini_ext (engine start) (push mini_ext (board start) (0, 1))
          (float_sub float_0_1 float_0_01)
        = Some (0, [(push mini_ext (board start) (0, 1), float_sub float_0_1 float_0_01)])"
    by (simp add: mini_ext_def start_def mini_push_def material_def own_def opp_def Let_def)
  moreover have "engine start = []" by (simp add: start_def)
  ultimately have d: "analyse mini_ext [] (push mini_ext (board start) (0, 1))
          (float_sub float_0_1 float_0_01)
        = Some (0, [(push mini_ext (board start) (0, 1), float_sub float_0_1 float_0_01)])"
    by simp
  have evs: "map evaluation (visited worst_locals) = [0, 0, - 1]"
    by (simp add: worst_parts start_locals_def start_visits_def)
  then have "evaluation ` set (visited worst_locals) = {0, - 1}"
    by (metis (no_types, lifting) list.set_map list.simps(15) empty_set insert_absorb2)
  then have mx: "Max (evaluation ` set (visited worst_locals)) = 0" by simp
  from worst_tracks_maximum_evaluation [where ext = mini_ext and r = 0 and w = start and tleft = Limit and rm = None
      and res = worst_res and w' = worst_world and l' = worst_locals] worst_run_eq
  have "worstEvaluation worst_locals = Some (Max (evaluation ` set (visited worst_locals)))"
    by blast
  with mx have e: "worstEvaluation worst_locals = Some 0" by simp
  have f: "map move (worstMoves worst_locals) = [(0, 1), (0, 2)]"
    by (simp add: worst_parts start_locals_def start_visits_def)
  from a b c d evs e f show ?thesis by simp
qed

subsection \<open>Claim C4\<close>

text \<open>
  Claim C4 says that both attributes reflect the position after the move. On \<open>start\<close> the
  candidate \<open>(0, 1)\<close> is tagged as no capture, which is \<open>is_capture\<close> on the position before
  the move; on the position after the move \<open>is_capture\<close> of the same move holds.
\<close>

theorem is_capture_tag_from_position_before_move:
  "worst_run = Inr (worst_res, worst_world, worst_locals)
   \<and> first_visit \<in> set (visited worst_locals)
   \<and> move (candidate first_visit) = (0, 1)
   \<and> position first_visit = push mini_ext (board start) (0, 1)
   \<and> isCapture (candidate first_visit) = False
   \<and> is_capture mini_ext (position first_visit) (move (candidate first_visit)) = True
   \<and> is_capture mini_ext (board start) (move (candidate first_visit)) = False"
proof -
  have fv: "first_visit =
      \<lparr>candidate = \<lparr>move = (0, 1), isCapture = False, isCheck = False\<rparr>,
       position = mini_push (board start) (0, 1), slice = float_0_1, evaluation = 0\<rparr>"
    by (simp add: first_visit_def worst_parts start_locals_def start_visits_def)
  have mem: "first_visit \<in> set (visited worst_locals)"
    by (simp add: first_visit_def worst_parts start_locals_def start_visits_def)
  have after: "is_capture mini_ext (mini_push (board start) (0, 1)) (0, 1) = True"
    by (simp add: mini_ext_def mini_is_capture_def mini_push_def start_def own_def opp_def Let_def)
  have before: "is_capture mini_ext (board start) (0, 1) = False"
    by (simp add: mini_ext_def mini_is_capture_def start_def own_def opp_def)
  have ps: "push mini_ext b m = mini_push b m" for b m
    by (simp add: mini_ext_def)
  from worst_run_Inr mem after before show ?thesis by (simp add: fv ps)
qed

text \<open>
  Claim C4, amended. When \<open>pop\<close> undoes \<open>push\<close> on the position of the call, every candidate
  of the scoring loop, and so every tied move, carries \<open>isCapture\<close> as \<open>is_capture\<close> of the
  move on the position before the move is applied, and \<open>isCheck\<close> as \<open>is_check\<close> of the
  position after the move is applied.
\<close>

theorem worst_tags_capture_before_check_after:
  "(\<forall>m \<in> set (legal_moves ext (board w)). pop ext (push ext (board w) m) = board w)
   \<and> WorstFish_search ext r w tleft rm = Inr (res, w', l)
   \<longrightarrow> map (\<lambda>v. move (candidate v)) (visited l) = legal_moves ext (board w)
       \<and> (\<forall>v \<in> set (visited l).
            isCapture (candidate v) = is_capture ext (board w) (move (candidate v))
            \<and> isCheck (candidate v) = is_check ext (push ext (board w) (move (candidate v))))
       \<and> (\<forall>mv \<in> set (worstMoves l).
            isCapture mv = is_capture ext (board w) (move mv)
            \<and> isCheck mv = is_check ext (push ext (board w) (move mv)))"
proof
  assume a: "(\<forall>m \<in> set (legal_moves ext (board w)). pop ext (push ext (board w) m) = board w)
   \<and> WorstFish_search ext r w tleft rm = Inr (res, w', l)"
  then have law: "\<forall>m \<in> set (legal_moves ext (board w)). pop ext (push ext (board w) m) = board w"
    and s: "WorstFish_search ext r w tleft rm = Inr (res, w', l)"
    by blast+
  from WorstFish_search_law [OF law s] have
    tags: "\<forall>v \<in> set (visited l).
            isCapture (candidate v) = is_capture ext (board w) (move (candidate v))
            \<and> isCheck (candidate v) = is_check ext (push ext (board w) (move (candidate v)))"
    by auto
  from WorstFish_search_visited [OF s] have
    mv: "map (\<lambda>v. move (candidate v)) (visited l) = legal_moves ext (board w)" and
    tr: "(worstEvaluation l, worstMoves l) = track (None, []) (visited l)"
    by blast+
  from tr have "worstMoves l = snd (track (None, []) (visited l))"
    by (metis snd_conv)
  with track_subset [of "(None, [])" "visited l"]
  have sub: "set (worstMoves l) \<subseteq> candidate ` set (visited l)" by simp
  from mv tags sub show "map (\<lambda>v. move (candidate v)) (visited l) = legal_moves ext (board w)
       \<and> (\<forall>v \<in> set (visited l).
            isCapture (candidate v) = is_capture ext (board w) (move (candidate v))
            \<and> isCheck (candidate v) = is_check ext (push ext (board w) (move (candidate v))))
       \<and> (\<forall>mv \<in> set (worstMoves l).
            isCapture mv = is_capture ext (board w) (move mv)
            \<and> isCheck mv = is_check ext (push ext (board w) (move mv)))"
    by blast
qed

text \<open>The amended C4 on the run on \<open>start\<close>.\<close>

theorem worst_tags_capture_before_check_after_witness:
  "pop mini_ext (push mini_ext (board start) (0, 1)) = board start
   \<and> pop mini_ext (push mini_ext (board start) (0, 2)) = board start
   \<and> pop mini_ext (push mini_ext (board start) (0, 3)) = board start
   \<and> legal_moves mini_ext (board start) = [(0, 1), (0, 2), (0, 3)]
   \<and> map (isCapture \<circ> candidate) (visited worst_locals)
        = map (is_capture mini_ext (board start)) (legal_moves mini_ext (board start))
   \<and> map (isCapture \<circ> candidate) (visited worst_locals) = [False, False, True]
   \<and> map (isCheck \<circ> candidate) (visited worst_locals)
        = map (is_check mini_ext \<circ> push mini_ext (board start)) (legal_moves mini_ext (board start))
   \<and> map (isCheck \<circ> candidate) (visited worst_locals) = [False, True, False]"
proof -
  from worst_tags_capture_before_check_after [where ext = mini_ext and r = 0 and w = start and tleft = Limit and rm = None
      and res = worst_res and w' = worst_world and l = worst_locals] start_law worst_run_eq
  have mv: "map (\<lambda>v. move (candidate v)) (visited worst_locals) = legal_moves mini_ext (board start)"
    and tags: "\<forall>v \<in> set (visited worst_locals).
            isCapture (candidate v) = is_capture mini_ext (board start) (move (candidate v))
            \<and> isCheck (candidate v) = is_check mini_ext (push mini_ext (board start) (move (candidate v)))"
    by blast+
  have "map (isCapture \<circ> candidate) (visited worst_locals)
      = map (is_capture mini_ext (board start)) (map (\<lambda>v. move (candidate v)) (visited worst_locals))"
    using tags by simp
  then have a: "map (isCapture \<circ> candidate) (visited worst_locals)
      = map (is_capture mini_ext (board start)) (legal_moves mini_ext (board start))"
    by (simp only: mv)
  have "map (isCheck \<circ> candidate) (visited worst_locals)
      = map (is_check mini_ext \<circ> push mini_ext (board start)) (map (\<lambda>v. move (candidate v)) (visited worst_locals))"
    using tags by simp
  then have b: "map (isCheck \<circ> candidate) (visited worst_locals)
      = map (is_check mini_ext \<circ> push mini_ext (board start)) (legal_moves mini_ext (board start))"
    by (simp only: mv)
  have c: "map (isCapture \<circ> candidate) (visited worst_locals) = [False, False, True]"
    and d: "map (isCheck \<circ> candidate) (visited worst_locals) = [False, True, False]"
    by (simp_all add: worst_parts start_locals_def start_visits_def)
  note e = start_legal
  from a b c d e show ?thesis by (simp add: mini_round_trip)
qed

subsection \<open>Claim C5\<close>

text \<open>
  Claim C5 says that every strategy fails with \<open>NoLegalMoves\<close> when there is no legal move.
  On \<open>stuck\<close> the worst and the random strategy fail with \<open>IndexError\<close> and the best strategy
  with \<open>TypeError\<close>.
\<close>

theorem no_legal_moves_raises_IndexError:
  "legal_moves mini_ext (board stuck) = []
   \<and> WorstFish_search mini_ext 0 stuck Limit None = Inl IndexError
   \<and> WorstFish_search mini_ext 0 stuck Limit None \<noteq> Inl NoLegalMoves
   \<and> TestFish_search mini_ext 3 0 stuck Limit None = Inl IndexError
   \<and> TestFish_search mini_ext 0 0 stuck Limit None = Inl TypeError"
  by code_simp

text \<open>
  Claim C5, amended. Without a legal move no strategy fails with \<open>NoLegalMoves\<close>. The random
  and the worst strategy return no move: the random strategy fails with \<open>IndexError\<close>, and so
  does the worst strategy for a \<^verbatim>\<open>Limit\<close> and for a non-negative clock. The best and the
  capture strategy both give the answer of the module-level engine, which is a \<open>TypeError\<close>
  when the engine reports no move.
\<close>

theorem no_legal_moves_failures:
  "legal_moves ext (board w) = [] \<longrightarrow>
     TestFish_strategy ext Random r w tleft rm = Inl IndexError
     \<and> WorstFish_search ext r w Limit rm = Inl IndexError
     \<and> (0 \<le> T \<longrightarrow> WorstFish_search ext r w (Millis T) rm = Inl IndexError)
     \<and> isl (WorstFish_search ext r w tleft rm)
     \<and> TestFish_strategy ext Worst r w Limit rm = Inl IndexError
     \<and> (0 \<le> T \<longrightarrow> TestFish_strategy ext Worst r w (Millis T) rm = Inl IndexError)
     \<and> TestFish_strategy ext Best r w tleft rm = best_move ext w
     \<and> TestFish_strategy ext Capture r w tleft rm = best_move ext w
     \<and> (fst (get_best_move ext (stockfish w) (fen ext (board w))) = None
          \<longrightarrow> best_move ext w = Inl TypeError)
     \<and> (\<forall>mt. TestFish_strategy ext mt r w tleft rm \<noteq> Inl NoLegalMoves)
     \<and> WorstFish_search ext r w tleft rm \<noteq> Inl NoLegalMoves"
proof
  assume e: "legal_moves ext (board w) = []"
  have 1: "TestFish_strategy ext Random r w tleft rm = Inl IndexError"
    using e by (simp add: choice_def)
  note 2 = WorstFish_no_moves(1) [OF e, of r rm]
  have 3: "0 \<le> T \<longrightarrow> WorstFish_search ext r w (Millis T) rm = Inl IndexError"
    using WorstFish_no_moves(2) [OF e] clock_cap_nonneg by blast
  have 4: "isl (WorstFish_search ext r w tleft rm)"
  proof (cases tleft)
    case Limit
    then show ?thesis using 2 by simp
  next
    case (Millis x)
    then show ?thesis
      using WorstFish_no_moves(2) [OF e, of x r rm] WorstFish_no_moves(3) [OF e, of x r rm]
      by (cases "0 \<le> clock_cap x") auto
  qed
  have 5: "TestFish_strategy ext Worst r w Limit rm = Inl IndexError"
    using 2 by simp
  have 6: "0 \<le> T \<longrightarrow> TestFish_strategy ext Worst r w (Millis T) rm = Inl IndexError"
    using 3 by simp
  have 7: "TestFish_strategy ext Best r w tleft rm = best_move ext w" by simp
  have 8: "TestFish_strategy ext Capture r w tleft rm = best_move ext w"
    using e by simp
  have 9: "fst (get_best_move ext (stockfish w) (fen ext (board w))) = None
          \<longrightarrow> best_move ext w = Inl TypeError"
    by (simp add: best_move_def)
  have 10: "\<forall>mt. TestFish_strategy ext mt r w tleft rm \<noteq> Inl NoLegalMoves"
    using TestFish_strategy_Inl [of ext _ r w tleft rm NoLegalMoves] by auto
  have 11: "WorstFish_search ext r w tleft rm \<noteq> Inl NoLegalMoves"
    using WorstFish_search_Inl [of ext r w tleft rm NoLegalMoves] by auto
  from 1 2 3 4 5 6 7 8 9 10 11 show
    "TestFish_strategy ext Random r w tleft rm = Inl IndexError
     \<and> WorstFish_search ext r w Limit rm = Inl IndexError
     \<and> (0 \<le> T \<longrightarrow> WorstFish_search ext r w (Millis T) rm = Inl IndexError)
     \<and> isl (WorstFish_search ext r w tleft rm)
     \<and> TestFish_strategy ext Worst r w Limit rm = Inl IndexError
     \<and> (0 \<le> T \<longrightarrow> TestFish_strategy ext Worst r w (Millis T) rm = Inl IndexError)
     \<and> TestFish_strategy ext Best r w tleft rm = best_move ext w
     \<and> TestFish_strategy ext Capture r w tleft rm = best_move ext w
     \<and> (fst (get_best_move ext (stockfish w) (fen ext (board w))) = None
          \<longrightarrow> best_move ext w = Inl TypeError)
     \<and> (\<forall>mt. TestFish_strategy ext mt r w tleft rm \<noteq> Inl NoLegalMoves)
     \<and> WorstFish_search ext r w tleft rm \<noteq> Inl NoLegalMoves"
    by (intro conjI)
qed

text \<open>The amended C5 on \<open>stuck\<close>.\<close>

theorem no_legal_moves_failures_witness:
  "legal_moves mini_ext (board stuck) = []
   \<and> TestFish_strategy mini_ext Random 2 stuck Limit None = Inl IndexError
   \<and> WorstFish_search mini_ext 2 stuck Limit None = Inl IndexError
   \<and> WorstFish_search mini_ext 2 stuck (Millis 60000) None = Inl IndexError
   \<and> TestFish_strategy mini_ext Worst 2 stuck (Millis 60000) None = Inl IndexError
   \<and> TestFish_strategy mini_ext Best 2 stuck Limit None = Inl TypeError
   \<and> TestFish_strategy mini_ext Capture 2 stuck Limit None = Inl TypeError"
proof -
  have e: "legal_moves mini_ext (board stuck) = []" by code_simp
  have n: "fst (get_best_move mini_ext (stockfish stuck) (fen mini_ext (board stuck))) = None"
    by code_simp
  from no_legal_moves_failures [where ext = mini_ext and w = stuck and r = 2 and tleft = Limit and rm = None
      and T = 60000] e n
  show ?thesis by simp
qed

subsection \<open>Claim C6\<close>

text \<open>
  Claim C6. When the position has legal captures, the capture strategy returns the capture at
  the residue of the draw, so that each position of the list of captures is the outcome of
  exactly one of the equally likely residues. When it has none, the capture strategy returns
  what the best strategy returns on the same objects, whatever the other arguments; the same
  holds for \<^verbatim>\<open>TestFish.search\<close> with draws that select the two strategies.
\<close>

theorem capture_samples_or_falls_back_to_best:
  "(legal_captures ext (board w) \<noteq> [] \<longrightarrow>
      TestFish_strategy ext Capture r w tleft rm =
        Inr (PlayMove (legal_captures ext (board w) ! (r mod length (legal_captures ext (board w)))), w)
      \<and> (\<forall>m. length (filter (\<lambda>k. TestFish_strategy ext Capture k w tleft rm = Inr (PlayMove m, w))
                  [0..<length (legal_captures ext (board w))])
             = count_list (legal_captures ext (board w)) m))
   \<and> (legal_captures ext (board w) = [] \<longrightarrow>
        TestFish_strategy ext Capture r w tleft rm = TestFish_strategy ext Best r' w tleft' rm')
   \<and> (legal_captures ext (board w) = [] \<and> r0 mod 6 = 5 \<and> q0 mod 6 < 3 \<longrightarrow>
        TestFish_search ext r0 r w tleft rm = TestFish_search ext q0 r' w tleft' rm')"
proof -
  let ?caps = "legal_captures ext (board w)"
  have strat: "TestFish_strategy ext Capture k w tleft rm =
      (case choice k ?caps of Inl e \<Rightarrow> Inl e | Inr m \<Rightarrow> Inr (PlayMove m, w))"
    if "?caps \<noteq> []" for k
    using that by (simp add: legal_captures_def Let_def)
  have a: "?caps \<noteq> [] \<longrightarrow>
      TestFish_strategy ext Capture r w tleft rm = Inr (PlayMove (?caps ! (r mod length ?caps)), w)
      \<and> (\<forall>m. length (filter (\<lambda>k. TestFish_strategy ext Capture k w tleft rm = Inr (PlayMove m, w))
                  [0..<length ?caps]) = count_list ?caps m)"
  proof
    assume ne: "?caps \<noteq> []"
    have one: "TestFish_strategy ext Capture r w tleft rm = Inr (PlayMove (?caps ! (r mod length ?caps)), w)"
      unfolding strat [OF ne] using ne by (simp add: choice_def)
    have cnt: "length (filter (\<lambda>k. TestFish_strategy ext Capture k w tleft rm = Inr (PlayMove m, w))
                  [0..<length ?caps]) = count_list ?caps m" for m
    proof -
      have "filter (\<lambda>k. TestFish_strategy ext Capture k w tleft rm = Inr (PlayMove m, w)) [0..<length ?caps]
            = filter (\<lambda>k. choice k ?caps = Inr m) [0..<length ?caps]"
        unfolding strat [OF ne] by (rule filter_cong) (auto simp: choice_def)
      then show ?thesis by (simp add: count_draws)
    qed
    from one cnt show "TestFish_strategy ext Capture r w tleft rm = Inr (PlayMove (?caps ! (r mod length ?caps)), w)
      \<and> (\<forall>m. length (filter (\<lambda>k. TestFish_strategy ext Capture k w tleft rm = Inr (PlayMove m, w))
                  [0..<length ?caps]) = count_list ?caps m)"
      by blast
  qed
  have b: "?caps = [] \<longrightarrow>
        TestFish_strategy ext Capture r w tleft rm = TestFish_strategy ext Best r' w tleft' rm'"
    by (simp add: legal_captures_def Let_def)
  have c: "?caps = [] \<and> r0 mod 6 = 5 \<and> q0 mod 6 < 3 \<longrightarrow>
        TestFish_search ext r0 r w tleft rm = TestFish_search ext q0 r' w tleft' rm'"
    using b by (auto simp: TestFish_search_def choice_move_types_Capture choice_move_types_Best)
  from a b c show ?thesis by (intro conjI)
qed

text \<open>C6 on \<open>start\<close>, with the capture \<open>(0, 3)\<close>, and on \<open>lone\<close>, without captures.\<close>

theorem capture_samples_or_falls_back_to_best_witness:
  "legal_captures mini_ext (board start) = [(0, 3)]
   \<and> TestFish_strategy mini_ext Capture 7 start Limit None = Inr (PlayMove (0, 3), start)
   \<and> legal_captures mini_ext (board lone) = []
   \<and> TestFish_strategy mini_ext Capture 7 lone Limit None
        = TestFish_strategy mini_ext Best 8 lone (Millis 5) None
   \<and> TestFish_search mini_ext 5 7 lone Limit None = TestFish_search mini_ext 1 8 lone (Millis 5) None
   \<and> TestFish_search mini_ext 5 7 lone Limit None = Inr (PlayUci ''go'', lone\<lparr>stockfish := 1\<rparr>)"
proof -
  have c1: "legal_captures mini_ext (board start) = [(0, 3)]"
    and c2: "legal_captures mini_ext (board lone) = []"
    and v: "TestFish_search mini_ext 5 7 lone Limit None = Inr (PlayUci ''go'', lone\<lparr>stockfish := 1\<rparr>)"
    by code_simp+
  from capture_samples_or_falls_back_to_best [where ext = mini_ext and w = start and r = 7 and tleft = Limit and rm = None] c1
  have a: "TestFish_strategy mini_ext Capture 7 start Limit None = Inr (PlayMove (0, 3), start)"
    by simp
  from capture_samples_or_falls_back_to_best [where ext = mini_ext and w = lone and r = 7 and tleft = Limit and rm = None
      and r' = 8 and tleft' = "Millis 5" and rm' = None and ?r0.0 = 5 and ?q0.0 = 1] c2
  have b: "TestFish_strategy mini_ext Capture 7 lone Limit None
        = TestFish_strategy mini_ext Best 8 lone (Millis 5) None"
    and c: "TestFish_search mini_ext 5 7 lone Limit None = TestFish_search mini_ext 1 8 lone (Millis 5) None"
    by simp_all
  from c1 c2 a b c v show ?thesis by simp
qed

subsection \<open>Claim C7\<close>


subsection \<open>Claim C8\<close>

text \<open>
  Claim C8: the returned move lies in \<^verbatim>\<open>restrict_to_moves\<close> when the caller gives one. On
  \<open>start\<close> with \<open>root_moves = [(0, 2)]\<close> the random strategy returns \<open>(0, 1)\<close>, the capture
  strategy \<open>(0, 3)\<close> and the worst strategy \<open>(0, 1)\<close>: legal moves outside the list.
\<close>

theorem root_moves_not_honoured:
  "legal_moves mini_ext (board start) = [(0, 1), (0, 2), (0, 3)]
   \<and> TestFish_search mini_ext 3 0 start Limit (Some [(0, 2)]) = Inr (PlayMove (0, 1), start)
   \<and> TestFish_search mini_ext 5 0 start Limit (Some [(0, 2)]) = Inr (PlayMove (0, 3), start)
   \<and> fst (projr (WorstFish_search mini_ext 0 start Limit (Some [(0, 2)]))) = PlayMove (0, 1)
   \<and> (0, 1) \<notin> set [(0 :: nat, 2 :: nat)]
   \<and> (0, 3) \<notin> set [(0 :: nat, 2 :: nat)]"
proof -
  have rnd: "TestFish_search mini_ext 3 0 start Limit (Some [(0, 2)]) = Inr (PlayMove (0, 1), start)"
    and cap: "TestFish_search mini_ext 5 0 start Limit (Some [(0, 2)]) = Inr (PlayMove (0, 3), start)"
    by code_simp+
  have "WorstFish_search mini_ext 0 start Limit (Some [(0, 2)])
      = Inr (PlayMove (0, 1), start_world float_0_1, start_locals float_0_1)"
    by (rule start_search) (rule search_time_Limit)
  then have wst: "fst (projr (WorstFish_search mini_ext 0 start Limit (Some [(0, 2)]))) = PlayMove (0, 1)"
    by simp
  from start_legal rnd cap wst show ?thesis by simp
qed

subsection \<open>Claim C9\<close>

text \<open>
  Claim C9 says that a non-positive time is clamped or rejected and never reaches the engine.
  \<^verbatim>\<open>evaluate\<close> with the time 0 calls \<^verbatim>\<open>analyse\<close> with the limit \<open>- 0.01\<close>; with a clock of 0 ms
  the run on \<open>start\<close> hands the time 0 to each of its three evaluations, \<^verbatim>\<open>analyse\<close> receives
  the negative limit three times, and the run returns a move.
\<close>

theorem nonpositive_slice_reaches_engine:
  "float_sub 0 float_0_01 = - (5764607523034235 / 576460752303423488)
   \<and> evaluate mini_ext [] (board start) 0 = Inr (0, [(board start, float_sub 0 float_0_01)])
   \<and> search_time (Millis 0) 3 = Inr 0
   \<and> clock_run 0 = Inr (PlayMove (0, 1), clock_world 0, clock_locals 0)
   \<and> map slice (visited (clock_locals 0)) = [0, 0, 0]
   \<and> map snd (engine (clock_world 0))
        = [float_sub 0 float_0_01, float_sub 0 float_0_01, float_sub 0 float_0_01]
   \<and> clock_run 0 \<noteq> Inl TimeBudgetExhausted"
proof -
  note run = clock_run_value [OF search_time_0]
  have v: "float_sub 0 float_0_01 = - (5764607523034235 / 576460752303423488)"
    by code_simp
  have ev: "evaluate mini_ext [] (board start) 0 = Inr (0, [(board start, float_sub 0 float_0_01)])"
    by (simp add: evaluate_def mini_ext_def start_def material_def own_def opp_def)
  have sl: "map slice (visited (clock_locals 0)) = [0, 0, 0]"
    by (simp add: run(4) start_locals_def start_visits_def)
  have en: "map snd (engine (clock_world 0))
        = [float_sub 0 float_0_01, float_sub 0 float_0_01, float_sub 0 float_0_01]"
    by (simp add: run(3) start_world_def)
  have ne: "clock_run 0 \<noteq> Inl TimeBudgetExhausted"
    by (simp add: run(2))
  from v ev search_time_0 run(2) sl en ne show ?thesis by (intro conjI)
qed

text \<open>
  Claim C9, amended. \<^verbatim>\<open>evaluate\<close> passes its time minus 0.01 (a float subtraction) to
  \<^verbatim>\<open>analyse\<close> without any test, returns the answer and fails only when that call fails; for a
  time of at most 0.01 the limit passed is zero or negative. \<^verbatim>\<open>WorstFish.search\<close> never fails
  with \<open>TimeBudgetExhausted\<close>, and in a run that returns \<^verbatim>\<open>analyse\<close> was called once for each
  entry of the history, with the recorded time minus 0.01. For a \<^verbatim>\<open>Limit\<close> the time per move
  is 0.1 and the limit passed is positive.
\<close>

theorem evaluate_forwards_slice_unchecked:
  "(analyse ext sf b (float_sub t float_0_01) = Some result \<longrightarrow> evaluate ext sf b t = Inr result)
   \<and> (analyse ext sf b (float_sub t float_0_01) = None \<longrightarrow> evaluate ext sf b t = Inl EngineError)
   \<and> (t \<le> float_0_01 \<longrightarrow> float_sub t float_0_01 \<le> 0)
   \<and> WorstFish_search ext r w tleft rm \<noteq> Inl TimeBudgetExhausted
   \<and> (WorstFish_search ext r w tleft rm = Inr (res, w', l) \<longrightarrow>
        engine_replay ext (engine w) (visited l) = Some (engine w'))
   \<and> search_time Limit n = Inr float_0_1
   \<and> 0 < float_sub float_0_1 float_0_01"
proof -
  have a: "analyse ext sf b (float_sub t float_0_01) = Some result \<longrightarrow> evaluate ext sf b t = Inr result"
    by (simp add: evaluate_def)
  have b: "analyse ext sf b (float_sub t float_0_01) = None \<longrightarrow> evaluate ext sf b t = Inl EngineError"
    by (simp add: evaluate_def)
  have c: "t \<le> float_0_01 \<longrightarrow> float_sub t float_0_01 \<le> 0"
    by (simp add: float_sub_def round64_nonpos)
  have d: "WorstFish_search ext r w tleft rm \<noteq> Inl TimeBudgetExhausted"
    using WorstFish_search_Inl [of ext r w tleft rm TimeBudgetExhausted] by auto
  have e: "WorstFish_search ext r w tleft rm = Inr (res, w', l) \<longrightarrow>
        engine_replay ext (engine w) (visited l) = Some (engine w')"
    using WorstFish_search_replay [of ext r w tleft rm res w' l] by blast
  have f: "0 < float_sub float_0_1 float_0_01"
    by (simp add: float_limit_value)
  from a b c d e search_time_Limit [of n] f show ?thesis by (intro conjI)
qed

text \<open>
  The amended C9 on the two engines of the instance, on the time 0.005 and on the run on
  \<open>start\<close> with a \<^verbatim>\<open>Limit\<close>.
\<close>

theorem evaluate_forwards_slice_unchecked_witness:
  "evaluate mini_ext [] (board start) float_0_1
     = Inr (0, [(board start, float_sub float_0_1 float_0_01)])
   \<and> evaluate dead_ext [] (board start) float_0_1 = Inl EngineError
   \<and> 1 / 200 \<le> float_0_01
   \<and> float_sub (1 / 200) float_0_01 \<le> 0
   \<and> engine_replay mini_ext [] (visited worst_locals) = Some (engine worst_world)
   \<and> map snd (engine worst_world)
        = [float_sub float_0_1 float_0_01, float_sub float_0_1 float_0_01,
           float_sub float_0_1 float_0_01]
   \<and> float_sub float_0_1 float_0_01 = 6485183463413515 / 72057594037927936"
proof -
  have an: "analyse mini_ext [] (board start) (float_sub float_0_1 float_0_01)
      = Some (0, [(board start, float_sub float_0_1 float_0_01)])"
    by (simp add: mini_ext_def start_def material_def own_def opp_def)
  have dd: "analyse dead_ext [] (board start) (float_sub float_0_1 float_0_01) = None"
    by (simp add: dead_ext_def)
  from evaluate_forwards_slice_unchecked [where ext = mini_ext and sf = "[]" and b = "board start"
      and t = float_0_1 and result = "(0, [(board start, float_sub float_0_1 float_0_01)])"] an
  have a: "evaluate mini_ext [] (board start) float_0_1
     = Inr (0, [(board start, float_sub float_0_1 float_0_01)])"
    by blast
  from evaluate_forwards_slice_unchecked [where ext = dead_ext and sf = "[]" and b = "board start"
      and t = float_0_1] dd
  have b: "evaluate dead_ext [] (board start) float_0_1 = Inl EngineError"
    by blast
  have le: "1 / 200 \<le> float_0_01" by (simp add: float_0_01_value)
  from evaluate_forwards_slice_unchecked [where t = "1 / 200" and ext = mini_ext and sf = "[]"
      and b = "board start" and result = "(0, [])" and r = 0 and w = start and tleft = Limit
      and rm = None and res = worst_res and w' = worst_world and l = worst_locals and n = 3] le
  have c: "float_sub (1 / 200) float_0_01 \<le> 0" by blast
  from evaluate_forwards_slice_unchecked [where ext = mini_ext and r = 0 and w = start
      and tleft = Limit and rm = None and res = worst_res and w' = worst_world and l = worst_locals]
    worst_run_eq
  have "engine_replay mini_ext (engine start) (visited worst_locals) = Some (engine worst_world)"
    by blast
  then have d: "engine_replay mini_ext [] (visited worst_locals) = Some (engine worst_world)"
    by (simp add: start_def)
  have e: "map snd (engine worst_world)
        = [float_sub float_0_1 float_0_01, float_sub float_0_1 float_0_01,
           float_sub float_0_1 float_0_01]"
    by (simp add: worst_parts start_world_def)
  from a b le c d e float_limit_value show ?thesis by (intro conjI)
qed

subsection \<open>Claim C10\<close>

text \<open>
  Claim C10. A tied move that is both a capture and a check is put into \<^verbatim>\<open>worstCaptures\<close> and
  into neither of the two other lists; when the tie-break returns such a move, every tied
  move is a capture.
\<close>

theorem capture_check_classified_as_capture:
  "(mv \<in> set wm \<and> isCapture mv \<and> isCheck mv \<longrightarrow>
      mv \<in> set (fst (partition_worst wm [] [] []))
      \<and> mv \<notin> set (fst (snd (partition_worst wm [] [] [])))
      \<and> mv \<notin> set (snd (snd (partition_worst wm [] [] []))))
   \<and> (tie_break r wm = Inr mv \<and> isCapture mv \<and> isCheck mv \<longrightarrow> (\<forall>x \<in> set wm. isCapture x))"
proof -
  have classified: "mv \<in> set wm \<and> isCapture mv \<and> isCheck mv \<longrightarrow>
      mv \<in> set (fst (partition_worst wm [] [] []))
      \<and> mv \<notin> set (fst (snd (partition_worst wm [] [] [])))
      \<and> mv \<notin> set (snd (snd (partition_worst wm [] [] [])))"
    by (simp add: partition_worst_filter)
  have returned: "tie_break r wm = Inr mv \<and> isCapture mv \<and> isCheck mv \<longrightarrow> (\<forall>x \<in> set wm. isCapture x)"
  proof
    assume a: "tie_break r wm = Inr mv \<and> isCapture mv \<and> isCheck mv"
    then have "mv \<in> set (first_bucket wm)"
      by (auto simp: tie_break_first_bucket dest: choice_mem)
    with a have "filter quiet wm = []" "filter (\<lambda>mv. \<not> isCapture mv \<and> isCheck mv) wm = []"
      by (auto simp: first_bucket_def quiet_def split: if_splits)
    then show "\<forall>x \<in> set wm. isCapture x"
      by (auto simp: filter_empty_conv quiet_def)
  qed
  from classified returned show ?thesis by (rule conjI)
qed

text \<open>C10 on tied sets that contain the capturing check.\<close>

theorem capture_check_classified_as_capture_witness:
  "isCapture capture_check_move \<and> isCheck capture_check_move
   \<and> fst (partition_worst [check_move, capture_check_move] [] [] []) = [capture_check_move]
   \<and> tie_break 3 [capture_move, capture_check_move] = Inr capture_check_move
   \<and> isCapture capture_move"
proof -
  have cc: "isCapture capture_check_move \<and> isCheck capture_check_move"
    by (simp add: capture_check_move_def)
  have tb: "tie_break 3 [capture_move, capture_check_move] = Inr capture_check_move"
    by code_simp
  from capture_check_classified_as_capture [where mv = capture_check_move and wm = "[capture_move, capture_check_move]" and r = 3] cc tb
  have a: "isCapture capture_move" by simp
  from capture_check_classified_as_capture [where mv = capture_check_move and wm = "[check_move, capture_check_move]"] cc
  have "capture_check_move \<in> set (fst (partition_worst [check_move, capture_check_move] [] [] []))"
    by simp
  moreover have "fst (partition_worst [check_move, capture_check_move] [] [] []) = [capture_check_move]"
    by (simp add: check_move_def capture_check_move_def)
  ultimately show ?thesis using cc tb a by simp
qed

end
